theory Spec2Isabelle
  imports Main
begin

section \<open>The reverse proxy of mirage-ecs\<close>

text \<open>
  The routing table of the gateway is the Go type \<^verbatim>\<open>ReverseProxy\<close>: a map from
  subdomain keys to \<^verbatim>\<open>proxyHandlers\<close>, which maps a listen port to a bucket, which maps
  a backend address to a \<^verbatim>\<open>proxyHandler\<close> (a forwarding handler and a timer).

  Conventions of the embedding.
  \<^item> A Go map is a HOL map; \<open>None\<close> is the absent key (Go reads a nil inner map there).
  \<^item> Every method takes the receiver and returns it updated; a method that only
    reads returns the receiver as it got it.
  \<^item> A \<^verbatim>\<open>range\<close> over a Go map visits the keys in an order the runtime picks anew
    each time. Each such loop takes the order as a list argument and skips a listed
    key that is not (or no longer) in the map; theorems quantify over the order.
  \<^item> Time is a natural number of nanoseconds. Each call is handed the time \<open>now\<close> at
    which it runs, and time does not pass within a call (each method runs under
    the lock of the table). A \<^verbatim>\<open>time.Timer\<close> is the instant at which it fires.
  \<^item> Each call of \<^verbatim>\<open>log.Printf\<close> or \<^verbatim>\<open>log.Println\<close> is recorded as its first
    argument and the arguments after it; every operation returns the lines it logged,
    in order.
\<close>

subsection \<open>Strings: \<^verbatim>\<open>strings.ToLower\<close>, \<^verbatim>\<open>strings.Split\<close>, \<^verbatim>\<open>utf8.DecodeRuneInString\<close>\<close>

text \<open>
  A Go string is a byte sequence, here a \<open>char list\<close> (a HOL \<open>char\<close> is one byte).
  These three functions belong to Go's standard library; they are written out after
  its documented behaviour.
\<close>

definition byte :: "char \<Rightarrow> nat" where
  "byte c = of_char c"

text \<open>\<^verbatim>\<open>strings.ToLower\<close> on a string of ASCII bytes maps \<^verbatim>\<open>A..Z\<close> to \<^verbatim>\<open>a..z\<close>. On other
  strings Go lowers Unicode code points; the model leaves bytes from 128 on as they
  are, so statements about \<open>ToLower\<close> are made for ASCII strings.\<close>

definition lower_byte :: "char \<Rightarrow> char" where
  "lower_byte c = (if 65 \<le> byte c \<and> byte c \<le> 90 then char_of (byte c + 32) else c)"

definition ToLower :: "string \<Rightarrow> string" where
  "ToLower s = map lower_byte s"

definition isASCII :: "string \<Rightarrow> bool" where
  "isASCII s = list_all (\<lambda>c. byte c < 128) s"

text \<open>\<^verbatim>\<open>strings.Split(s, sep)\<close> for a separator of one byte: the pieces between the
  separators, always at least one piece.\<close>

fun Split :: "string \<Rightarrow> char \<Rightarrow> string list" where
  "Split [] sep = [[]]"
| "Split (c # cs) sep =
     (if c = sep then [] # Split cs sep
      else (case Split cs sep of
              [] \<Rightarrow> [[c]]
            | p # ps \<Rightarrow> (c # p) # ps))"

definition RuneError :: nat where
  "RuneError = 65533"

text \<open>\<^verbatim>\<open>utf8.DecodeRuneInString\<close>: the first code point of \<open>s\<close> and its width in bytes;
  \<open>(RuneError, 0)\<close> on the empty string and \<open>(RuneError, 1)\<close> on an invalid encoding.\<close>

definition acceptRange :: "nat \<Rightarrow> nat \<times> nat \<times> nat" where
  \<comment> \<open>for a leading byte: the width and the bounds of the second byte\<close>
  "acceptRange b0 =
     (if b0 < 224 then (2, 128, 191)
      else if b0 = 224 then (3, 160, 191)
      else if b0 = 237 then (3, 128, 159)
      else if b0 < 240 then (3, 128, 191)
      else if b0 = 240 then (4, 144, 191)
      else if b0 < 244 then (4, 128, 191)
      else (4, 128, 143))"

definition DecodeRuneInString :: "string \<Rightarrow> nat \<times> nat" where
  "DecodeRuneInString s =
     (case s of
        [] \<Rightarrow> (RuneError, 0)
      | c0 # _ \<Rightarrow>
          let b0 = byte c0 in
          if b0 < 128 then (b0, 1)
          else if b0 < 194 \<or> 244 < b0 then (RuneError, 1)
          else
            (case acceptRange b0 of (sz, lo, hi) \<Rightarrow>
               if length s < sz then (RuneError, 1)
               else
                 let s1 = byte (s ! 1) in
                 if s1 < lo \<or> hi < s1 then (RuneError, 1)
                 else if sz \<le> 2 then ((b0 mod 32) * 64 + s1 mod 64, 2)
                 else
                   let s2 = byte (s ! 2) in
                   if s2 < 128 \<or> 191 < s2 then (RuneError, 1)
                   else if sz \<le> 3 then ((b0 mod 16) * 4096 + (s1 mod 64) * 64 + s2 mod 64, 3)
                   else
                     let s3 = byte (s ! 3) in
                     if s3 < 128 \<or> 191 < s3 then (RuneError, 1)
                     else ((b0 mod 8) * 262144 + (s1 mod 64) * 4096
                             + (s2 mod 64) * 64 + s3 mod 64, 4)))"

subsection \<open>\<^verbatim>\<open>path.Match\<close>\<close>

text \<open>
  \<^verbatim>\<open>path.Match(pattern, name)\<close> of Go's standard library, the matcher that \<^verbatim>\<open>Exists\<close>
  and \<^verbatim>\<open>findHandler\<close> call with a registered key as the pattern. The library's
  functions \<^verbatim>\<open>scanChunk\<close>, \<^verbatim>\<open>getEsc\<close>, \<^verbatim>\<open>matchChunk\<close> and \<^verbatim>\<open>Match\<close> are followed loop
  by loop. A Go result \<^verbatim>\<open>(v, err)\<close> is a sum: \<open>Inl ErrBadPattern\<close> or \<open>Inr v\<close>.
\<close>

datatype error = ErrBadPattern

text \<open>The scanning loop of \<^verbatim>\<open>scanChunk\<close>: the index of the first \<^verbatim>\<open>*\<close> outside a
  character class, or the length.\<close>

fun scanIndex :: "bool \<Rightarrow> string \<Rightarrow> nat" where
  "scanIndex inrange [] = 0"
| "scanIndex inrange (c # cs) =
     (if c = CHR 0x5C then
        (case cs of [] \<Rightarrow> 1 | d # ds \<Rightarrow> 2 + scanIndex inrange ds)
      else if c = CHR ''['' then 1 + scanIndex True cs
      else if c = CHR '']'' then 1 + scanIndex False cs
      else if c = CHR ''*'' \<and> \<not> inrange then 0
      else 1 + scanIndex inrange cs)"

definition scanChunk :: "string \<Rightarrow> bool \<times> string \<times> string" where
  "scanChunk pattern =
     (let star = (pattern \<noteq> [] \<and> hd pattern = CHR ''*'');
          pattern1 = dropWhile (\<lambda>c. c = CHR ''*'') pattern;
          i = scanIndex False pattern1
      in (star, take i pattern1, drop i pattern1))"

definition getEsc :: "string \<Rightarrow> error + (nat \<times> string)" where
  "getEsc chunk =
     (if chunk = [] \<or> hd chunk = CHR ''-'' \<or> hd chunk = CHR '']'' then Inl ErrBadPattern
      else
        let chunk1 = (if hd chunk = CHR 0x5C then tl chunk else chunk) in
        if chunk1 = [] then Inl ErrBadPattern
        else
          (case DecodeRuneInString chunk1 of (r, n) \<Rightarrow>
             if r = RuneError \<and> n = 1 then Inl ErrBadPattern
             else if drop n chunk1 = [] then Inl ErrBadPattern
             else Inr (r, drop n chunk1)))"

lemma DecodeRuneInString_width:
  "s \<noteq> [] \<Longrightarrow> 1 \<le> snd (DecodeRuneInString s)"
  by (cases s) (simp_all add: DecodeRuneInString_def Let_def split: prod.splits)

lemma getEsc_shorter: "getEsc chunk = Inr (r, nchunk) \<Longrightarrow> length nchunk < length chunk"
proof -
  assume a: "getEsc chunk = Inr (r, nchunk)"
  define chunk1 where "chunk1 = (if hd chunk = CHR 0x5C then tl chunk else chunk)"
  define n where "n = snd (DecodeRuneInString chunk1)"
  from a have ne: "chunk1 \<noteq> []" and nc: "nchunk = drop n chunk1" and nn: "nchunk \<noteq> []"
    by (auto simp: getEsc_def Let_def chunk1_def n_def split: if_splits prod.splits)
  from ne have "1 \<le> n"
    unfolding n_def by (rule DecodeRuneInString_width)
  with nc nn have "length nchunk < length chunk1" by auto
  moreover have "length chunk1 \<le> length chunk" by (simp add: chunk1_def)
  ultimately show ?thesis by simp
qed

text \<open>The loop of \<^verbatim>\<open>matchChunk\<close> that reads the ranges of a character class up to
  the closing bracket; \<open>r\<close> is the code point being matched.\<close>

function matchRanges :: "string \<Rightarrow> nat \<Rightarrow> bool \<Rightarrow> nat \<Rightarrow> error + (bool \<times> string)" where
  "matchRanges chunk r match nrange =
     (if chunk \<noteq> [] \<and> hd chunk = CHR '']'' \<and> 0 < nrange then Inr (match, tl chunk)
      else
        (case getEsc chunk of
           Inl e \<Rightarrow> Inl e
         | Inr (lo, chunk1) \<Rightarrow>
             if hd chunk1 = CHR ''-'' then
               (case getEsc (tl chunk1) of
                  Inl e \<Rightarrow> Inl e
                | Inr (hi, chunk2) \<Rightarrow>
                    matchRanges chunk2 r (match \<or> (lo \<le> r \<and> r \<le> hi)) (nrange + 1))
             else matchRanges chunk1 r (match \<or> (lo \<le> r \<and> r \<le> lo)) (nrange + 1)))"
  by pat_completeness auto
termination
proof (relation "measure (\<lambda>(chunk, r, match, nrange). length chunk)")
  show "wf (measure (\<lambda>(chunk, r, match, nrange). length chunk))" by simp
next
  fix chunk :: string and r :: nat and match :: bool and nrange :: nat
    and x2 x lo chunk1 x2a y hi chunk2
  assume "getEsc chunk = Inr x2" "(lo, chunk1) = x2"
    "getEsc (tl chunk1) = Inr x2a" "(hi, chunk2) = x2a"
  then have "length chunk1 < length chunk" "length chunk2 < length (tl chunk1)"
    using getEsc_shorter by metis+
  then show "((chunk2, r, match \<or> lo \<le> r \<and> r \<le> hi, nrange + 1), chunk, r, match, nrange)
      \<in> measure (\<lambda>(chunk, r, match, nrange). length chunk)"
    by simp
next
  fix chunk :: string and r :: nat and match :: bool and nrange :: nat
    and x2 lo chunk1
  assume "getEsc chunk = Inr x2" "(lo, chunk1) = x2"
  then have "length chunk1 < length chunk"
    using getEsc_shorter by metis
  then show "((chunk1, r, match \<or> lo \<le> r \<and> r \<le> lo, nrange + 1), chunk, r, match, nrange)
      \<in> measure (\<lambda>(chunk, r, match, nrange). length chunk)"
    by simp
qed

lemma matchRanges_shorter:
  "matchRanges chunk r match nrange = Inr (m, rest) \<Longrightarrow> length rest < length chunk"
proof (induction chunk r match nrange rule: matchRanges.induct)
  case (1 chunk r match nrange)
  show ?case
  proof (cases "chunk \<noteq> [] \<and> hd chunk = CHR '']'' \<and> 0 < nrange")
    case True
    with "1.prems" show ?thesis by (cases chunk) auto
  next
    case False
    with "1.prems" obtain lo chunk1 where g1: "getEsc chunk = Inr (lo, chunk1)"
      by (auto split: sum.splits)
    then have l1: "length chunk1 < length chunk" by (rule getEsc_shorter)
    show ?thesis
    proof (cases "hd chunk1 = CHR ''-''")
      case dash: True
      with "1.prems" False g1 obtain hi chunk2 where g2: "getEsc (tl chunk1) = Inr (hi, chunk2)"
        by (auto split: sum.splits)
      then have l2: "length chunk2 < length (tl chunk1)" by (rule getEsc_shorter)
      from "1.prems" False g1 dash g2
      have "matchRanges chunk2 r (match \<or> (lo \<le> r \<and> r \<le> hi)) (nrange + 1) = Inr (m, rest)"
        by simp
      with "1.IH"(1) [OF False g1 refl dash g2 refl] have "length rest < length chunk2" by simp
      with l1 l2 show ?thesis by simp
    next
      case nodash: False
      from "1.prems" False g1 nodash
      have "matchRanges chunk1 r (match \<or> (lo \<le> r \<and> r \<le> lo)) (nrange + 1) = Inr (m, rest)"
        by simp
      with "1.IH"(2) [OF False g1 refl nodash] have "length rest < length chunk1" by simp
      with l1 show ?thesis by simp
    qed
  qed
qed

declare matchRanges.simps [simp del]

text \<open>The main loop of \<^verbatim>\<open>matchChunk\<close>. After the match has failed the loop goes on
  over the chunk, to report a malformed pattern, and no longer reads \<open>s\<close>.\<close>

function matchChunk_loop :: "string \<Rightarrow> string \<Rightarrow> bool \<Rightarrow> error + (string \<times> bool)" where
  "matchChunk_loop chunk s failed =
     (case chunk of
        [] \<Rightarrow> (if failed then Inr ([], False) else Inr (s, True))
      | c # chunk1 \<Rightarrow>
          let failed1 = (failed \<or> s = []) in
          if c = CHR ''['' then
            (let r = (if failed1 then 0 else fst (DecodeRuneInString s));
                 s1 = (if failed1 then s else drop (snd (DecodeRuneInString s)) s);
                 negated = (chunk1 \<noteq> [] \<and> hd chunk1 = CHR ''^'');
                 chunk2 = (if negated then tl chunk1 else chunk1)
             in case matchRanges chunk2 r False 0 of
                  Inl e \<Rightarrow> Inl e
                | Inr (match, chunk3) \<Rightarrow>
                    matchChunk_loop chunk3 s1 (failed1 \<or> match = negated))
          else if c = CHR ''?'' then
            matchChunk_loop chunk1
              (if failed1 then s else drop (snd (DecodeRuneInString s)) s)
              (failed1 \<or> hd s = CHR ''/'')
          else if c = CHR 0x5C then
            (case chunk1 of
               [] \<Rightarrow> Inl ErrBadPattern
             | d # chunk2 \<Rightarrow>
                 matchChunk_loop chunk2 (if failed1 then s else tl s) (failed1 \<or> d \<noteq> hd s))
          else matchChunk_loop chunk1 (if failed1 then s else tl s) (failed1 \<or> c \<noteq> hd s))"
  by pat_completeness auto
termination
  by (relation "measure (\<lambda>(chunk, s, failed). length chunk)")
     (auto dest!: matchRanges_shorter split: if_splits)

declare matchChunk_loop.simps [simp del]

definition matchChunk :: "string \<Rightarrow> string \<Rightarrow> error + (string \<times> bool)" where
  "matchChunk chunk s = matchChunk_loop chunk s False"

lemma scanIndex_le: "scanIndex inrange p \<le> length p"
  by (induction inrange p rule: scanIndex.induct) (auto split: list.splits)

lemma scanIndex_pos: "p \<noteq> [] \<Longrightarrow> hd p \<noteq> CHR ''*'' \<Longrightarrow> 0 < scanIndex inrange p"
  by (cases p) (auto split: list.splits)

lemma scanChunk_shorter:
  assumes "pattern \<noteq> []" and "scanChunk pattern = (star, chunk, rest)"
  shows "length rest < length pattern"
proof (cases "hd pattern = CHR ''*''")
  case True
  with assms(1) have "length (dropWhile (\<lambda>c. c = CHR ''*'') pattern) < length pattern"
    by (cases pattern) (auto intro: le_imp_less_Suc length_dropWhile_le)
  moreover from assms(2)
  have "length rest \<le> length (dropWhile (\<lambda>c. c = CHR ''*'') pattern)"
    by (auto simp: scanChunk_def Let_def)
  ultimately show ?thesis by simp
next
  case False
  with assms(1) have dw: "dropWhile (\<lambda>c. c = CHR ''*'') pattern = pattern"
    by (cases pattern) auto
  from False assms(1) have "0 < scanIndex False pattern" by (simp add: scanIndex_pos)
  with assms dw show ?thesis by (auto simp: scanChunk_def Let_def)
qed

text \<open>The inner loop of \<^verbatim>\<open>Match\<close> after a star: try the chunk after skipping one more
  byte of \<open>name\<close>, never skipping a slash. \<open>lastchunk\<close> says that the pattern is
  used up, so that the chunk has to match to the end of \<open>name\<close>. The result is the
  rest of \<open>name\<close> after a match, or \<open>None\<close> when the loop ran out.\<close>

fun starSkip :: "string \<Rightarrow> bool \<Rightarrow> string \<Rightarrow> error + string option" where
  "starSkip chunk lastchunk [] = Inr None"
| "starSkip chunk lastchunk (c # rest) =
     (if c = CHR ''/'' then Inr None
      else
        (case matchChunk chunk rest of
           Inl e \<Rightarrow> Inl e
         | Inr (t, ok) \<Rightarrow>
             if ok then (if lastchunk \<and> t \<noteq> [] then starSkip chunk lastchunk rest
                         else Inr (Some t))
             else starSkip chunk lastchunk rest))"

text \<open>The last loop of \<^verbatim>\<open>Match\<close>: before answering "no match", check that the rest
  of the pattern is well formed.\<close>

function checkRest :: "string \<Rightarrow> error + bool" where
  "checkRest pattern =
     (if pattern = [] then Inr False
      else
        (case scanChunk pattern of (star, chunk, rest) \<Rightarrow>
           (case matchChunk chunk [] of
              Inl e \<Rightarrow> Inl e
            | Inr _ \<Rightarrow> checkRest rest)))"
  by pat_completeness auto
termination
  by (relation "measure length") (auto dest: scanChunk_shorter [rotated, OF sym])

declare checkRest.simps [simp del]

function Match :: "string \<Rightarrow> string \<Rightarrow> error + bool" where
  "Match pattern name =
     (if pattern = [] then Inr (name = [])
      else
        (case scanChunk pattern of (star, chunk, rest) \<Rightarrow>
           if star \<and> chunk = [] then Inr (CHR ''/'' \<notin> set name)
           else
             (case matchChunk chunk name of
                Inl e \<Rightarrow> Inl e
              | Inr (t, ok) \<Rightarrow>
                  if ok \<and> (t = [] \<or> rest \<noteq> []) then Match rest t
                  else if star then
                    (case starSkip chunk (rest = []) name of
                       Inl e \<Rightarrow> Inl e
                     | Inr (Some t') \<Rightarrow> Match rest t'
                     | Inr None \<Rightarrow> checkRest rest)
                  else checkRest rest)))"
  by pat_completeness auto
termination
  by (relation "measure (\<lambda>(pattern, name). length pattern)")
     (auto dest: scanChunk_shorter [rotated, OF sym])

declare Match.simps [simp del]

text \<open>The callers write \<^verbatim>\<open>m, _ := path.Match(name, subdomain)\<close>: the error is dropped,
  and \<open>m\<close> is false with it.\<close>

definition matched :: "string \<Rightarrow> string \<Rightarrow> bool" where
  "matched pattern name = (case Match pattern name of Inl _ \<Rightarrow> False | Inr m \<Rightarrow> m)"

subsection \<open>Configuration, handlers and the table\<close>

text \<open>Of \<^verbatim>\<open>Config\<close> the reverse proxy reads \<^verbatim>\<open>Listen.HTTP\<close> only; the fields for ECS,
  parameters and links are left out. A Go \<^verbatim>\<open>int\<close> port is an \<open>int\<close>: ports are
  compared, never computed with.\<close>

record PortMap =
  ListenPort :: int
  TargetPort :: int

record Listen =
  ForeignAddress :: string
  HTTP :: "PortMap list"
  HTTPS :: "PortMap list"

record Config =
  Listen :: Listen

datatype arg = ArgS string | ArgI int

type_synonym log_line = "string \<times> arg list"

definition Second :: nat where
  "Second = 1000000000"

definition proxyHandlerLifetime :: nat where
  "proxyHandlerLifetime = 30 * Second"

text \<open>\<^verbatim>\<open>AddSubdomain\<close> formats the URL \<^verbatim>\<open>http://<ipaddress>:<TargetPort>\<close>, parses it and
  hands it to \<^verbatim>\<open>rproxy.NewSingleHostReverseProxy\<close>. The \<^verbatim>\<open>http.Handler\<close> it gets is
  represented by the two values the URL is formatted from. The source drops the
  error of \<^verbatim>\<open>url.Parse\<close> and passes its result on; the model covers the calls whose
  URL parses, and what the library does with a URL that does not is outside it.\<close>

datatype http_Handler = NewSingleHostReverseProxy (dest_host: string) (dest_port: int)

record proxyHandler =
  handler :: http_Handler
  timer :: nat

type_synonym bucket = "string \<rightharpoonup> proxyHandler"

type_synonym proxyHandlers = "int \<rightharpoonup> bucket"

record proxyControl =
  Action :: string
  Subdomain :: string
  IPAddress :: string
  Port :: int

record ReverseProxy =
  cfg :: Config
  domainMap :: "string \<rightharpoonup> proxyHandlers"

definition NewReverseProxy :: "Config \<Rightarrow> ReverseProxy" where
  "NewReverseProxy c = \<lparr>cfg = c, domainMap = Map.empty\<rparr>"

subsection \<open>\<^verbatim>\<open>proxyHandler\<close>: the timer\<close>

text \<open>\<^verbatim>\<open>time.NewTimer(proxyHandlerLifetime)\<close> fires once, \<open>proxyHandlerLifetime\<close> after
  its creation or last \<^verbatim>\<open>Reset\<close>; \<open>timer h\<close> is that instant. \<^verbatim>\<open>alive\<close> polls the timer's
  channel without blocking: a value is there from the firing instant on. The poll
  takes the value out of the channel, but both callers of \<^verbatim>\<open>alive\<close> delete the handler
  from its bucket when it answers false, so no polled handler stays in the table.\<close>

definition newProxyHandler :: "http_Handler \<Rightarrow> nat \<Rightarrow> proxyHandler" where
  "newProxyHandler h now = \<lparr>handler = h, timer = now + proxyHandlerLifetime\<rparr>"

definition alive :: "proxyHandler \<Rightarrow> nat \<Rightarrow> bool" where
  "alive h now = (now < timer h)"

definition extend :: "proxyHandler \<Rightarrow> nat \<Rightarrow> proxyHandler" where
  "extend h now = h\<lparr>timer := now + proxyHandlerLifetime\<rparr>"

subsection \<open>\<^verbatim>\<open>proxyHandlers\<close>: the buckets of one subdomain\<close>

text \<open>The loop of \<^verbatim>\<open>Handler\<close> over one bucket, in the order \<open>order\<close>: the first
  handler alive is returned, each dead one met before it is deleted.\<close>

fun Handler_range ::
  "bucket \<Rightarrow> string list \<Rightarrow> nat \<Rightarrow> http_Handler option \<times> bucket \<times> log_line list" where
  "Handler_range handlers [] now = (None, handlers, [])"
| "Handler_range handlers (ipaddress # order) now =
     (case handlers ipaddress of
        None \<Rightarrow> Handler_range handlers order now
      | Some h \<Rightarrow>
          if alive h now then (Some (handler h), handlers, [])
          else
            (case Handler_range (handlers(ipaddress := None)) order now of
               (res, handlers', logs) \<Rightarrow>
                 (res, handlers',
                  (''[info] proxy handler to %s is dead'', [ArgS ipaddress]) # logs)))"

definition Handler ::
  "proxyHandlers \<Rightarrow> string list \<Rightarrow> int \<Rightarrow> nat
     \<Rightarrow> http_Handler option \<times> proxyHandlers \<times> log_line list" where
  "Handler ph order port now =
     (case ph port of
        None \<Rightarrow> (None, ph, [])
      | Some handlers \<Rightarrow>
          if dom handlers = {} then (None, ph, [])
          else
            (case Handler_range handlers order now of
               (res, handlers', logs) \<Rightarrow> (res, ph(port \<mapsto> handlers'), logs)))"

definition exists ::
  "proxyHandlers \<Rightarrow> int \<Rightarrow> string \<Rightarrow> nat \<Rightarrow> bool \<times> proxyHandlers \<times> log_line list" where
  "exists ph port ipaddress now =
     (case ph port of
        None \<Rightarrow> (False, ph, [])
      | Some handlers \<Rightarrow>
          (case handlers ipaddress of
             None \<Rightarrow> (False, ph, [])
           | Some h \<Rightarrow>
               if alive h now then
                 (True, ph(port \<mapsto> handlers(ipaddress \<mapsto> extend h now)),
                  [(''[debug] proxy handler to %s extends lifetime'', [ArgS ipaddress])])
               else
                 (False, ph(port \<mapsto> handlers(ipaddress := None)),
                  [(''[info] proxy handler to %s is dead'', [ArgS ipaddress])])))"

definition add ::
  "proxyHandlers \<Rightarrow> int \<Rightarrow> string \<Rightarrow> http_Handler \<Rightarrow> nat \<Rightarrow> proxyHandlers \<times> log_line list" where
  "add ph port ipaddress h now =
     (let handlers = (case ph port of None \<Rightarrow> Map.empty | Some b \<Rightarrow> b)
      in (ph(port \<mapsto> handlers(ipaddress \<mapsto> newProxyHandler h now)),
          [(''[info] new proxy handler to %s'', [ArgS ipaddress])]))"

subsection \<open>\<^verbatim>\<open>ReverseProxy\<close>: the table\<close>

text \<open>The loop of \<^verbatim>\<open>AddSubdomain\<close> over \<^verbatim>\<open>cfg.Listen.HTTP\<close>.\<close>

fun AddSubdomain_range ::
  "PortMap list \<Rightarrow> proxyHandlers \<Rightarrow> string \<Rightarrow> string \<Rightarrow> int \<Rightarrow> nat
     \<Rightarrow> proxyHandlers \<times> log_line list" where
  "AddSubdomain_range [] ph subdomain ipaddress targetPort now = (ph, [])"
| "AddSubdomain_range (v # vs) ph subdomain ipaddress targetPort now =
     (if TargetPort v \<noteq> targetPort then
        AddSubdomain_range vs ph subdomain ipaddress targetPort now
      else
        (case exists ph (ListenPort v) ipaddress now of
           (found, ph1, logs1) \<Rightarrow>
             if found then
               (case AddSubdomain_range vs ph1 subdomain ipaddress targetPort now of
                  (ph', logs) \<Rightarrow> (ph', logs1 @ logs))
             else
               (case add ph1 (ListenPort v) ipaddress
                       (NewSingleHostReverseProxy ipaddress (TargetPort v)) now of
                  (ph2, logs2) \<Rightarrow>
                    (case AddSubdomain_range vs ph2 subdomain ipaddress targetPort now of
                       (ph', logs) \<Rightarrow>
                         (ph',
                          logs1 @ logs2 @
                          (''[info] add subdomain: %s:%d -> %s:%d'',
                           [ArgS subdomain, ArgI (ListenPort v), ArgS ipaddress,
                            ArgI targetPort]) # logs)))))"

definition AddSubdomain ::
  "ReverseProxy \<Rightarrow> string \<Rightarrow> string \<Rightarrow> int \<Rightarrow> nat \<Rightarrow> ReverseProxy \<times> log_line list" where
  "AddSubdomain r subdomain ipaddress targetPort now =
     (let ph = (case domainMap r subdomain of Some ph0 \<Rightarrow> ph0 | None \<Rightarrow> Map.empty)
      in case AddSubdomain_range (HTTP (Listen (cfg r))) ph subdomain ipaddress targetPort now of
           (ph', logs) \<Rightarrow> (r\<lparr>domainMap := (domainMap r)(subdomain \<mapsto> ph')\<rparr>, logs))"

definition RemoveSubdomain :: "ReverseProxy \<Rightarrow> string \<Rightarrow> ReverseProxy \<times> log_line list" where
  "RemoveSubdomain r subdomain =
     (r\<lparr>domainMap := (domainMap r)(subdomain := None)\<rparr>,
      [(''[info] removing subdomain:'', [ArgS subdomain])])"

definition proxyAdd :: string where
  "proxyAdd = ''Add''"

definition proxyRemove :: string where
  "proxyRemove = ''Remove''"

definition Modify :: "ReverseProxy \<Rightarrow> proxyControl \<Rightarrow> nat \<Rightarrow> ReverseProxy \<times> log_line list" where
  "Modify r action now =
     (if Action action = proxyAdd then
        AddSubdomain r (Subdomain action) (IPAddress action) (Port action) now
      else if Action action = proxyRemove then RemoveSubdomain r (Subdomain action)
      else (r, [(''[error] unknown proxy action: %s'', [ArgS (Action action)])]))"

text \<open>The loop of \<^verbatim>\<open>Exists\<close> over the keys of the table.\<close>

fun Exists_range :: "(string \<rightharpoonup> proxyHandlers) \<Rightarrow> string list \<Rightarrow> string \<Rightarrow> bool" where
  "Exists_range m [] subdomain = False"
| "Exists_range m (name # names) subdomain =
     (case m name of
        None \<Rightarrow> Exists_range m names subdomain
      | Some _ \<Rightarrow> if matched name subdomain then True else Exists_range m names subdomain)"

definition Exists :: "ReverseProxy \<Rightarrow> string list \<Rightarrow> string \<Rightarrow> bool \<times> ReverseProxy" where
  "Exists r names subdomain =
     (case domainMap r subdomain of
        Some _ \<Rightarrow> (True, r)
      | None \<Rightarrow> (Exists_range (domainMap r) names subdomain, r))"

definition Subdomains :: "ReverseProxy \<Rightarrow> string list \<Rightarrow> string list \<times> ReverseProxy" where
  "Subdomains r names = (filter (\<lambda>name. domainMap r name \<noteq> None) names, r)"

text \<open>The loop of \<^verbatim>\<open>findHandler\<close> over the table, entered when the subdomain is no
  key: the first key in the order that matches as a pattern, with its buckets.\<close>

fun findHandler_range ::
  "(string \<rightharpoonup> proxyHandlers) \<Rightarrow> string list \<Rightarrow> string \<Rightarrow> (string \<times> proxyHandlers) option" where
  "findHandler_range m [] subdomain = None"
| "findHandler_range m (name # names) subdomain =
     (case m name of
        None \<Rightarrow> findHandler_range m names subdomain
      | Some ph \<Rightarrow>
          if matched name subdomain then Some (name, ph)
          else findHandler_range m names subdomain)"

text \<open>\<open>names\<close> is the order of the loop over the table, \<open>order\<close> the order of the
  loop of \<^verbatim>\<open>Handler\<close> over the bucket. The buckets are Go maps shared with the table,
  so what \<^verbatim>\<open>Handler\<close> deletes is deleted in the table, under the key that was chosen.\<close>

definition findHandler ::
  "ReverseProxy \<Rightarrow> string list \<Rightarrow> string list \<Rightarrow> string \<Rightarrow> int \<Rightarrow> nat
     \<Rightarrow> http_Handler option \<times> ReverseProxy \<times> log_line list" where
  "findHandler r names order subdomain port now =
     (let line = (''[debug] findHandler for %s:%d'', [ArgS subdomain, ArgI port]);
          chosen = (case domainMap r subdomain of
                      Some ph \<Rightarrow> Some (subdomain, ph)
                    | None \<Rightarrow> findHandler_range (domainMap r) names subdomain)
      in case chosen of
           None \<Rightarrow> (None, r, [line])
         | Some (key, ph) \<Rightarrow>
             (case Handler ph order port now of
                (res, ph', logs) \<Rightarrow>
                  (res, r\<lparr>domainMap := (domainMap r)(key \<mapsto> ph')\<rparr>, line # logs)))"

datatype response = Proxied http_Handler | NotFound | Panic

text \<open>\<^verbatim>\<open>ServeHTTPWithPort\<close>: the subdomain is the first label of \<^verbatim>\<open>req.Host\<close>, lowered.
  Indexing the slice of \<^verbatim>\<open>strings.Split\<close> at 0 panics on an empty slice.\<close>

definition ServeHTTPWithPort ::
  "ReverseProxy \<Rightarrow> string list \<Rightarrow> string list \<Rightarrow> string \<Rightarrow> int \<Rightarrow> nat
     \<Rightarrow> response \<times> ReverseProxy \<times> log_line list" where
  "ServeHTTPWithPort r names order host port now =
     (case Split host (CHR ''.'') of
        [] \<Rightarrow> (Panic, r, [])
      | label # _ \<Rightarrow>
          let subdomain = ToLower label in
          (case findHandler r names order subdomain port now of
             (Some h, r', logs) \<Rightarrow>
               (Proxied h, r',
                logs @ [(''[debug] proxy handler found for subdomain %s'', [ArgS subdomain])])
           | (None, r', logs) \<Rightarrow>
               (NotFound, r',
                logs @ [(''[warn] proxy handler not found for subdomain %s'', [ArgS subdomain])])))"

subsection \<open>Calls in sequence\<close>

text \<open>A table is reachable when a sequence of calls of the methods leads to it from
  \<^verbatim>\<open>NewReverseProxy\<close>; each call carries its arguments, the orders of its loops and the
  time at which it runs.\<close>

datatype call =
    CallAddSubdomain string string int nat
  | CallRemoveSubdomain string
  | CallModify proxyControl nat
  | CallServeHTTPWithPort "string list" "string list" string int nat
  | CallFindHandler "string list" "string list" string int nat
  | CallExists "string list" string
  | CallSubdomains "string list"

fun step :: "ReverseProxy \<Rightarrow> call \<Rightarrow> ReverseProxy" where
  "step r (CallAddSubdomain subdomain ipaddress targetPort now) =
     fst (AddSubdomain r subdomain ipaddress targetPort now)"
| "step r (CallRemoveSubdomain subdomain) = fst (RemoveSubdomain r subdomain)"
| "step r (CallModify action now) = fst (Modify r action now)"
| "step r (CallServeHTTPWithPort names order host port now) =
     fst (snd (ServeHTTPWithPort r names order host port now))"
| "step r (CallFindHandler names order subdomain port now) =
     fst (snd (findHandler r names order subdomain port now))"
| "step r (CallExists names subdomain) = snd (Exists r names subdomain)"
| "step r (CallSubdomains names) = snd (Subdomains r names)"

fun run :: "ReverseProxy \<Rightarrow> call list \<Rightarrow> ReverseProxy" where
  "run r [] = r"
| "run r (c # cs) = run (step r c) cs"

section \<open>Notions for the statements\<close>

text \<open>\<open>bucketAt\<close> and \<open>handleAt\<close> read the bucket of a subdomain and port, and the
  handler of one address in it. \<open>touch\<close> is what one turn of the loop of \<^verbatim>\<open>AddSubdomain\<close>
  leaves in a bucket: the handler of the address renewed when it is alive, a new one
  otherwise. \<open>keyedByAddress\<close> says that each handler forwards to the address it is
  stored under. \<open>literalByte\<close> is a pattern byte without a meaning of its own in
  \<^verbatim>\<open>path.Match\<close>.\<close>

definition bucketAt :: "ReverseProxy \<Rightarrow> string \<Rightarrow> int \<Rightarrow> bucket option" where
  "bucketAt r subdomain port =
     (case domainMap r subdomain of None \<Rightarrow> None | Some ph \<Rightarrow> ph port)"

definition handleAt :: "ReverseProxy \<Rightarrow> string \<Rightarrow> int \<Rightarrow> string \<Rightarrow> proxyHandler option" where
  "handleAt r subdomain port ipaddress =
     (case bucketAt r subdomain port of None \<Rightarrow> None | Some handlers \<Rightarrow> handlers ipaddress)"

definition orEmpty :: "bucket option \<Rightarrow> bucket" where
  "orEmpty b = (case b of None \<Rightarrow> Map.empty | Some handlers \<Rightarrow> handlers)"

definition touch :: "bucket \<Rightarrow> string \<Rightarrow> int \<Rightarrow> nat \<Rightarrow> bucket" where
  "touch handlers ipaddress targetPort now =
     handlers(ipaddress \<mapsto>
       (case handlers ipaddress of
          None \<Rightarrow> newProxyHandler (NewSingleHostReverseProxy ipaddress targetPort) now
        | Some h \<Rightarrow>
            if alive h now then extend h now
            else newProxyHandler (NewSingleHostReverseProxy ipaddress targetPort) now))"

definition keyedByAddress :: "ReverseProxy \<Rightarrow> bool" where
  "keyedByAddress r =
     (\<forall>d p a e. handleAt r d p a = Some e \<longrightarrow> dest_host (handler e) = a)"

definition literalByte :: "char \<Rightarrow> bool" where
  "literalByte c = (c \<noteq> CHR ''*'' \<and> c \<noteq> CHR ''?'' \<and> c \<noteq> CHR ''['' \<and> c \<noteq> CHR 0x5C)"

subsection \<open>Tables to evaluate on\<close>

text \<open>The configuration has one HTTP listener, port 80 to target port 8080, and one
  HTTPS listener on 443. The tables are results of calls on the new table.\<close>

definition exampleConfig :: Config where
  "exampleConfig =
     \<lparr>Listen = \<lparr>ForeignAddress = ''127.0.0.1'',
                 HTTP = [\<lparr>ListenPort = 80, TargetPort = 8080\<rparr>],
                 HTTPS = [\<lparr>ListenPort = 443, TargetPort = 8080\<rparr>]\<rparr>\<rparr>"

definition oneBackend :: ReverseProxy where
  "oneBackend = fst (AddSubdomain (NewReverseProxy exampleConfig) ''foo'' ''10.0.0.1'' 8080 0)"

definition twoBackends :: ReverseProxy where
  "twoBackends = fst (AddSubdomain oneBackend ''foo'' ''10.0.0.2'' 8080 (20 * Second))"

definition twoKeys :: ReverseProxy where
  "twoKeys =
     fst (AddSubdomain
            (fst (AddSubdomain (NewReverseProxy exampleConfig) ''f*'' ''10.0.0.9'' 8080 0))
            ''foo'' ''10.0.0.1'' 8080 (40 * Second))"

definition previewTable :: ReverseProxy where
  "previewTable = fst (AddSubdomain (NewReverseProxy exampleConfig) ''pr-*'' ''10.0.0.1'' 8080 0)"

definition mixedCase :: ReverseProxy where
  "mixedCase = fst (AddSubdomain (NewReverseProxy exampleConfig) ''Foo'' ''10.0.0.1'' 8080 0)"

section \<open>Facts about the model\<close>

subsection \<open>What the loop of \<^verbatim>\<open>AddSubdomain\<close> computes\<close>

lemma lifetime_pos: "0 < proxyHandlerLifetime"
  by (simp add: proxyHandlerLifetime_def Second_def)

lemma alive_extend: "alive (extend h now) now"
  by (simp add: alive_def extend_def lifetime_pos)

lemma alive_new: "alive (newProxyHandler x now) now"
  by (simp add: alive_def newProxyHandler_def lifetime_pos)

lemma extend_extend: "extend (extend h now) now = extend h now"
  by (simp add: extend_def)

lemma extend_new: "extend (newProxyHandler x now) now = newProxyHandler x now"
  by (simp add: extend_def newProxyHandler_def)

lemma touch_touch: "touch (touch b ip tp now) ip tp now = touch b ip tp now"
  by (simp add: touch_def alive_extend alive_new extend_extend extend_new split: option.splits)

lemma AddSubdomain_range_step:
  "fst (AddSubdomain_range (v # vs) ph sub ip tp now) =
     (if TargetPort v \<noteq> tp then fst (AddSubdomain_range vs ph sub ip tp now)
      else fst (AddSubdomain_range vs
                  (ph(ListenPort v \<mapsto> touch (orEmpty (ph (ListenPort v))) ip tp now))
                  sub ip tp now))"
  by (simp add: exists_def add_def touch_def orEmpty_def Let_def
           split: option.splits prod.splits)

lemma AddSubdomain_range_port:
  "fst (AddSubdomain_range vs ph sub ip tp now) p =
     (if \<exists>v\<in>set vs. TargetPort v = tp \<and> ListenPort v = p
      then Some (touch (orEmpty (ph p)) ip tp now)
      else ph p)"
proof (induction vs arbitrary: ph)
  case Nil
  show ?case by simp
next
  case (Cons v vs)
  show ?case
  proof (cases "TargetPort v = tp")
    case False
    then show ?thesis
      using Cons.IH [of ph] by (simp only: AddSubdomain_range_step) auto
  next
    case True
    let ?ph1 = "ph(ListenPort v \<mapsto> touch (orEmpty (ph (ListenPort v))) ip tp now)"
    have "fst (AddSubdomain_range (v # vs) ph sub ip tp now) p
           = fst (AddSubdomain_range vs ?ph1 sub ip tp now) p"
      using True by (simp only: AddSubdomain_range_step) simp
    also have "\<dots> = (if \<exists>v\<in>set vs. TargetPort v = tp \<and> ListenPort v = p
                      then Some (touch (orEmpty (?ph1 p)) ip tp now) else ?ph1 p)"
      by (rule Cons.IH)
    also have "\<dots> = (if \<exists>v\<in>set (v # vs). TargetPort v = tp \<and> ListenPort v = p
                      then Some (touch (orEmpty (ph p)) ip tp now) else ph p)"
      using True by (auto simp: orEmpty_def touch_touch)
    finally show ?thesis .
  qed
qed

lemma AddSubdomain_range_nomatch:
  "\<forall>v\<in>set vs. TargetPort v \<noteq> tp \<Longrightarrow> AddSubdomain_range vs ph sub ip tp now = (ph, [])"
  by (induction vs) simp_all

lemma AddSubdomain_domainMap:
  "domainMap (fst (AddSubdomain r d ip tp now)) =
     (domainMap r)(d \<mapsto> fst (AddSubdomain_range (HTTP (Listen (cfg r)))
                               (case domainMap r d of Some ph0 \<Rightarrow> ph0 | None \<Rightarrow> Map.empty)
                               d ip tp now))"
  by (simp add: AddSubdomain_def Let_def split: prod.splits)

lemma AddSubdomain_cfg: "cfg (fst (AddSubdomain r d ip tp now)) = cfg r"
  by (simp add: AddSubdomain_def Let_def split: prod.splits)

lemma AddSubdomain_bucketAt:
  "bucketAt (fst (AddSubdomain r d ip tp now)) d' p =
     (if d' = d \<and> (\<exists>v\<in>set (HTTP (Listen (cfg r))). TargetPort v = tp \<and> ListenPort v = p)
      then Some (touch (orEmpty (bucketAt r d p)) ip tp now)
      else bucketAt r d' p)"
  by (auto simp: bucketAt_def AddSubdomain_domainMap AddSubdomain_range_port orEmpty_def
           split: option.splits)

lemma AddSubdomain_handleAt:
  "handleAt (fst (AddSubdomain r d ip tp now)) d' p a =
     (if d' = d \<and> (\<exists>v\<in>set (HTTP (Listen (cfg r))). TargetPort v = tp \<and> ListenPort v = p)
         \<and> a = ip
      then Some (case handleAt r d p ip of
                   None \<Rightarrow> newProxyHandler (NewSingleHostReverseProxy ip tp) now
                 | Some h \<Rightarrow>
                     if alive h now then extend h now
                     else newProxyHandler (NewSingleHostReverseProxy ip tp) now)
      else handleAt r d' p a)"
  by (auto simp: handleAt_def AddSubdomain_bucketAt touch_def orEmpty_def
           split: option.splits)

lemma RemoveSubdomain_handleAt:
  "handleAt (fst (RemoveSubdomain r sub)) d p a = (if d = sub then None else handleAt r d p a)"
  by (simp add: RemoveSubdomain_def handleAt_def bucketAt_def)

subsection \<open>What the loop of \<^verbatim>\<open>Handler\<close> computes\<close>

lemma Handler_range_Cons_res:
  "fst (Handler_range b (y # order) now) =
     (case b y of
        None \<Rightarrow> fst (Handler_range b order now)
      | Some h \<Rightarrow> if alive h now then Some (handler h)
                  else fst (Handler_range (b(y := None)) order now))"
  by (simp split: option.splits prod.splits)

lemma Handler_range_Cons_bucket:
  "fst (snd (Handler_range b (y # order) now)) =
     (case b y of
        None \<Rightarrow> fst (snd (Handler_range b order now))
      | Some h \<Rightarrow> if alive h now then b
                  else fst (snd (Handler_range (b(y := None)) order now)))"
  by (simp split: option.splits prod.splits)

declare Handler_range.simps(2) [simp del]

lemma Handler_range_dead:
  "\<forall>a h. a \<in> set order \<longrightarrow> b a = Some h \<longrightarrow> \<not> alive h now \<Longrightarrow>
     fst (Handler_range b order now) = None \<and>
     fst (snd (Handler_range b order now)) = (\<lambda>a. if a \<in> set order then None else b a)"
proof (induction order arbitrary: b)
  case Nil
  show ?case by simp
next
  case (Cons x order)
  show ?case
  proof (cases "b x")
    case None
    from Cons.prems
    have "\<forall>a h. a \<in> set order \<longrightarrow> b a = Some h \<longrightarrow> \<not> alive h now" by simp
    then have "fst (Handler_range b order now) = None \<and>
        fst (snd (Handler_range b order now)) = (\<lambda>a. if a \<in> set order then None else b a)"
      by (rule Cons.IH)
    with None show ?thesis
      by (auto simp: Handler_range_Cons_res Handler_range_Cons_bucket fun_eq_iff)
  next
    case (Some h)
    with Cons.prems have dead: "\<not> alive h now" by simp
    from Cons.prems
    have "\<forall>a h. a \<in> set order \<longrightarrow> (b(x := None)) a = Some h \<longrightarrow> \<not> alive h now" by simp
    then have "fst (Handler_range (b(x := None)) order now) = None \<and>
        fst (snd (Handler_range (b(x := None)) order now))
          = (\<lambda>a. if a \<in> set order then None else (b(x := None)) a)"
      by (rule Cons.IH)
    with Some dead show ?thesis
      by (auto simp: Handler_range_Cons_res Handler_range_Cons_bucket fun_eq_iff)
  qed
qed

lemma Handler_range_Some:
  "fst (Handler_range b order now) = Some x \<Longrightarrow>
     \<exists>a h. a \<in> set order \<and> b a = Some h \<and> alive h now \<and> x = handler h"
proof (induction order arbitrary: b)
  case Nil
  then show ?case by simp
next
  case (Cons y order)
  show ?case
  proof (cases "b y")
    case None
    with Cons.prems have "fst (Handler_range b order now) = Some x"
      by (simp add: Handler_range_Cons_res)
    then have "\<exists>a h. a \<in> set order \<and> b a = Some h \<and> alive h now \<and> x = handler h"
      by (rule Cons.IH)
    then show ?thesis by auto
  next
    case (Some h)
    show ?thesis
    proof (cases "alive h now")
      case True
      with Some Cons.prems show ?thesis by (auto simp: Handler_range_Cons_res)
    next
      case False
      with Some Cons.prems have "fst (Handler_range (b(y := None)) order now) = Some x"
        by (simp add: Handler_range_Cons_res)
      then have "\<exists>a h. a \<in> set order \<and> (b(y := None)) a = Some h \<and> alive h now
                        \<and> x = handler h"
        by (rule Cons.IH)
      then show ?thesis by (auto split: if_splits)
    qed
  qed
qed

lemma Handler_range_found:
  "a \<in> set order \<Longrightarrow> b a = Some h \<Longrightarrow> alive h now \<Longrightarrow>
     fst (Handler_range b order now) \<noteq> None"
proof (induction order arbitrary: b)
  case Nil
  then show ?case by simp
next
  case (Cons y order)
  show ?case
  proof (cases "b y")
    case None
    with Cons.prems have "a \<in> set order" by auto
    then have "fst (Handler_range b order now) \<noteq> None"
      using Cons.prems(2,3) by (rule Cons.IH)
    with None show ?thesis
      by (simp add: Handler_range_Cons_res)
  next
    case (Some g)
    show ?thesis
    proof (cases "alive g now")
      case True
      with Some show ?thesis by (simp add: Handler_range_Cons_res)
    next
      case False
      with Some Cons.prems have "a \<noteq> y" by auto
      with Cons.prems have "a \<in> set order" "(b(y := None)) a = Some h" by auto
      then have "fst (Handler_range (b(y := None)) order now) \<noteq> None"
        using Cons.prems(3) by (rule Cons.IH)
      with Some False show ?thesis
        by (simp add: Handler_range_Cons_res)
    qed
  qed
qed

lemma Handler_range_bucket:
  "fst (snd (Handler_range b order now)) a = None \<or>
   fst (snd (Handler_range b order now)) a = b a"
proof (induction order arbitrary: b)
  case Nil
  show ?case by simp
next
  case (Cons y order)
  have 1: "fst (snd (Handler_range b order now)) a = None \<or>
           fst (snd (Handler_range b order now)) a = b a"
    by (rule Cons.IH)
  have 2: "fst (snd (Handler_range (b(y := None)) order now)) a = None \<or>
           fst (snd (Handler_range (b(y := None)) order now)) a = (b(y := None)) a"
    by (rule Cons.IH)
  from 1 2 show ?case
    by (auto simp: Handler_range_Cons_bucket split: option.splits if_splits)
qed

lemma Handler_range_keeps_alive:
  "b a = Some h \<Longrightarrow> alive h now \<Longrightarrow> fst (snd (Handler_range b order now)) a = Some h"
proof (induction order arbitrary: b)
  case Nil
  then show ?case by simp
next
  case (Cons y order)
  show ?case
  proof (cases "b y")
    case None
    have "fst (snd (Handler_range b order now)) a = Some h"
      using Cons.prems by (rule Cons.IH)
    with None show ?thesis by (simp add: Handler_range_Cons_bucket)
  next
    case (Some g)
    show ?thesis
    proof (cases "alive g now")
      case True
      with Some Cons.prems show ?thesis by (simp add: Handler_range_Cons_bucket)
    next
      case False
      with Some Cons.prems have "a \<noteq> y" by auto
      with Cons.prems have "(b(y := None)) a = Some h" by simp
      then have "fst (snd (Handler_range (b(y := None)) order now)) a = Some h"
        using Cons.prems(2) by (rule Cons.IH)
      with Some False show ?thesis
        by (simp add: Handler_range_Cons_bucket)
    qed
  qed
qed

lemma Handler_range_untouched:
  "a \<notin> set order \<Longrightarrow> fst (snd (Handler_range b order now)) a = b a"
proof (induction order arbitrary: b)
  case Nil
  show ?case by simp
next
  case (Cons y order)
  from Cons.prems have ne: "a \<noteq> y" and nin: "a \<notin> set order" by auto
  have 1: "fst (snd (Handler_range b order now)) a = b a"
    using nin by (rule Cons.IH)
  have 2: "fst (snd (Handler_range (b(y := None)) order now)) a = (b(y := None)) a"
    using nin by (rule Cons.IH)
  from 1 2 ne show ?case
    by (simp add: Handler_range_Cons_bucket split: option.splits)
qed

lemma Handler_range_empty: "dom b = {} \<Longrightarrow> Handler_range b order now = (None, b, [])"
proof (induction order)
  case Nil
  show ?case by simp
next
  case (Cons y order)
  from Cons.prems have "b y = None" by auto
  with Cons show ?case by (simp add: Handler_range.simps)
qed

lemma Handler_as_range:
  assumes "ph port = Some b"
  shows "fst (Handler ph order port now) = fst (Handler_range b order now)"
    and "fst (snd (Handler ph order port now)) = ph(port \<mapsto> fst (snd (Handler_range b order now)))"
proof -
  show "fst (Handler ph order port now) = fst (Handler_range b order now)"
    using assms by (simp add: Handler_def Handler_range_empty split: prod.splits)
  show "fst (snd (Handler ph order port now)) = ph(port \<mapsto> fst (snd (Handler_range b order now)))"
  proof (cases "dom b = {}")
    case True
    with assms have "ph(port \<mapsto> fst (snd (Handler_range b order now))) = ph"
      by (auto simp: Handler_range_empty fun_eq_iff)
    with True assms show ?thesis by (simp add: Handler_def)
  next
    case False
    with assms show ?thesis by (simp add: Handler_def split: prod.splits)
  qed
qed

lemma Handler_no_bucket:
  "ph port = None \<Longrightarrow> Handler ph order port now = (None, ph, [])"
  by (simp add: Handler_def)

lemma Handler_bucket:
  "(case fst (snd (Handler ph order port now)) p of None \<Rightarrow> None | Some b \<Rightarrow> b a) = None \<or>
   (case fst (snd (Handler ph order port now)) p of None \<Rightarrow> None | Some b \<Rightarrow> b a)
     = (case ph p of None \<Rightarrow> None | Some b \<Rightarrow> b a)"
proof (cases "ph port")
  case None
  then show ?thesis by (simp add: Handler_def)
next
  case (Some b)
  from Handler_range_bucket [where b = b and order = order and now = now and a = a] Some
  show ?thesis
    by (auto simp: Handler_def split: prod.splits option.splits)
qed

lemma Handler_alive_found:
  assumes "ph port = Some b" and "a \<in> set order" and "b a = Some h" and "alive h now"
  shows "\<exists>a' h'. a' \<in> set order \<and> b a' = Some h' \<and> alive h' now
                 \<and> fst (Handler ph order port now) = Some (handler h')"
proof -
  from assms(3) have ne: "dom b \<noteq> {}" by auto
  have "fst (Handler_range b order now) \<noteq> None"
    using assms(2,3,4) by (rule Handler_range_found)
  then obtain x where x: "fst (Handler_range b order now) = Some x" by auto
  from Handler_range_Some [OF x] obtain a' h'
    where "a' \<in> set order" "b a' = Some h'" "alive h' now" "x = handler h'" by blast
  with x ne assms(1) show ?thesis
    by (auto simp: Handler_def split: prod.splits)
qed

subsection \<open>\<^verbatim>\<open>Exists\<close>, \<^verbatim>\<open>findHandler\<close> and \<^verbatim>\<open>ServeHTTPWithPort\<close>\<close>

lemma Exists_range_iff:
  "Exists_range m names d \<longleftrightarrow> (\<exists>name\<in>set names. m name \<noteq> None \<and> matched name d)"
  by (induction names) (auto split: option.splits)

lemma findHandler_range_Some:
  "findHandler_range m names d = Some (key, ph) \<Longrightarrow>
     m key = Some ph \<and> matched key d \<and> key \<in> set names"
  by (induction names) (auto split: option.splits if_splits)

lemma findHandler_range_None:
  "findHandler_range m names d = None \<longleftrightarrow>
     (\<forall>name\<in>set names. m name = None \<or> \<not> matched name d)"
  by (induction names) (auto split: option.splits if_splits)

lemma findHandler_exact:
  "domainMap r d = Some ph \<Longrightarrow>
     findHandler r names order d port now =
       (fst (Handler ph order port now),
        r\<lparr>domainMap := (domainMap r)(d \<mapsto> fst (snd (Handler ph order port now)))\<rparr>,
        (''[debug] findHandler for %s:%d'', [ArgS d, ArgI port])
          # snd (snd (Handler ph order port now)))"
  by (simp add: findHandler_def Let_def split: prod.splits)

lemma findHandler_pattern:
  "domainMap r sub = None \<Longrightarrow> findHandler_range (domainMap r) names sub = Some (key, ph) \<Longrightarrow>
     findHandler r names order sub port now =
       (fst (Handler ph order port now),
        r\<lparr>domainMap := (domainMap r)(key \<mapsto> fst (snd (Handler ph order port now)))\<rparr>,
        (''[debug] findHandler for %s:%d'', [ArgS sub, ArgI port])
          # snd (snd (Handler ph order port now)))"
  by (simp add: findHandler_def Let_def split: prod.splits)

lemma findHandler_nomatch:
  "domainMap r sub = None \<Longrightarrow> findHandler_range (domainMap r) names sub = None \<Longrightarrow>
     findHandler r names order sub port now =
       (None, r, [(''[debug] findHandler for %s:%d'', [ArgS sub, ArgI port])])"
  by (simp add: findHandler_def Let_def)

lemma findHandler_dom:
  "dom (domainMap (fst (snd (findHandler r names order d port now)))) = dom (domainMap r)"
proof (cases "domainMap r d")
  case (Some ph)
  then show ?thesis by (auto simp: findHandler_exact)
next
  case None
  show ?thesis
  proof (cases "findHandler_range (domainMap r) names d")
    case n: None
    with None show ?thesis by (simp add: findHandler_def Let_def)
  next
    case (Some kp)
    obtain key ph where kp: "kp = (key, ph)" by (cases kp)
    with Some have "domainMap r key = Some ph" by (simp add: findHandler_range_Some)
    with None Some kp show ?thesis
      by (auto simp: findHandler_def Let_def split: prod.splits)
  qed
qed

lemma findHandler_cfg: "cfg (fst (snd (findHandler r names order d port now))) = cfg r"
  by (simp add: findHandler_def Let_def split: option.splits prod.splits)

lemma findHandler_handleAt:
  "handleAt (fst (snd (findHandler r names order sub port now))) d p a = None \<or>
   handleAt (fst (snd (findHandler r names order sub port now))) d p a = handleAt r d p a"
proof -
  have step: "handleAt (r\<lparr>domainMap := (domainMap r)(key \<mapsto> fst (snd (Handler ph order port now)))\<rparr>) d p a = None \<or>
      handleAt (r\<lparr>domainMap := (domainMap r)(key \<mapsto> fst (snd (Handler ph order port now)))\<rparr>) d p a
        = handleAt r d p a"
    if "domainMap r key = Some ph" for key ph
    using that Handler_bucket [where ph = ph and order = order and port = port and now = now
        and p = p and a = a]
    by (auto simp: handleAt_def bucketAt_def)
  show ?thesis
  proof (cases "domainMap r sub")
    case (Some ph)
    with step [OF Some] show ?thesis by (simp add: findHandler_exact)
  next
    case None
    show ?thesis
    proof (cases "findHandler_range (domainMap r) names sub")
      case n: None
      with None show ?thesis by (simp add: findHandler_nomatch)
    next
      case (Some kp)
      obtain key ph where kp: "kp = (key, ph)" by (cases kp)
      with Some have "domainMap r key = Some ph" by (simp add: findHandler_range_Some)
      from step [OF this] None Some kp show ?thesis
        by (simp add: findHandler_pattern)
    qed
  qed
qed

lemma findHandler_exact_handleAt:
  assumes "domainMap r d = Some ph"
  shows "handleAt (fst (snd (findHandler r names order d port now))) d' p a =
           (if d' = d \<and> p = port
            then (case ph port of
                    None \<Rightarrow> None
                  | Some b \<Rightarrow> fst (snd (Handler_range b order now)) a)
            else handleAt r d' p a)"
proof (cases "ph port")
  case None
  with assms show ?thesis
    by (auto simp: findHandler_exact Handler_no_bucket handleAt_def bucketAt_def)
next
  case (Some b)
  with assms show ?thesis
    by (auto simp: findHandler_exact Handler_as_range handleAt_def bucketAt_def)
qed

lemma add_then_find_found:
  assumes "v \<in> set (HTTP (Listen (cfg r)))" and "TargetPort v = targetPort"
      and "t1 < t0 + proxyHandlerLifetime"
      and "address \<in> set order"
  shows "fst (findHandler (fst (AddSubdomain r domain address targetPort t0))
                names order domain (ListenPort v) t1) \<noteq> None"
proof -
  let ?L = "ListenPort v"
  let ?r1 = "fst (AddSubdomain r domain address targetPort t0)"
  from assms(1,2)
  have m: "\<exists>v\<in>set (HTTP (Listen (cfg r))). TargetPort v = targetPort \<and> ListenPort v = ?L"
    by auto
  obtain ph where ph: "domainMap ?r1 domain = Some ph"
    by (simp add: AddSubdomain_domainMap)
  from m obtain e0 where e0: "handleAt ?r1 domain ?L address = Some e0"
    and t0: "timer e0 = t0 + proxyHandlerLifetime"
    by (auto simp: AddSubdomain_handleAt newProxyHandler_def extend_def split: option.splits)
  from e0 ph obtain b where phb: "ph ?L = Some b" and be0: "b address = Some e0"
    by (auto simp: handleAt_def bucketAt_def split: option.splits)
  from t0 assms(3) have al: "alive e0 t1" by (simp add: alive_def)
  have "fst (Handler_range b order t1) \<noteq> None"
    using assms(4) be0 al by (rule Handler_range_found)
  with ph phb show ?thesis
    by (simp add: findHandler_exact Handler_as_range)
qed

lemma Split_nonempty: "Split s sep \<noteq> []"
  by (induction s) (auto split: list.splits)

lemma Split_first_no_sep: "Split s sep = label # labels \<Longrightarrow> sep \<notin> set label"
proof (induction s arbitrary: label labels)
  case Nil
  then show ?case by simp
next
  case (Cons c cs)
  show ?case
  proof (cases "c = sep")
    case True
    with Cons.prems show ?thesis by simp
  next
    case False
    obtain q qs where q: "Split cs sep = q # qs"
      using Split_nonempty [of cs sep] by (cases "Split cs sep") auto
    with Cons.IH have "sep \<notin> set q" by blast
    with False q Cons.prems show ?thesis by auto
  qed
qed

lemma ServeHTTPWithPort_label:
  "Split host (CHR ''.'') = label # labels \<Longrightarrow>
     ServeHTTPWithPort r names order host port now =
       (case findHandler r names order (ToLower label) port now of
          (Some h, r', logs) \<Rightarrow>
            (Proxied h, r',
             logs @ [(''[debug] proxy handler found for subdomain %s'', [ArgS (ToLower label)])])
        | (None, r', logs) \<Rightarrow>
            (NotFound, r',
             logs @ [(''[warn] proxy handler not found for subdomain %s'',
                      [ArgS (ToLower label)])]))"
  by (simp add: ServeHTTPWithPort_def Let_def)

lemma ServeHTTPWithPort_table:
  "fst (snd (ServeHTTPWithPort r names order host port now)) =
     fst (snd (findHandler r names order (ToLower (hd (Split host (CHR ''.'')))) port now))"
  using Split_nonempty [of host "CHR ''.''"]
  by (auto simp: ServeHTTPWithPort_def Let_def split: list.splits prod.splits option.splits)

subsection \<open>Every reachable table is keyed by address\<close>

lemma keyedByAddress_New: "keyedByAddress (NewReverseProxy c)"
  by (simp add: keyedByAddress_def NewReverseProxy_def handleAt_def bucketAt_def)

lemma keyedByAddress_Add:
  "keyedByAddress r \<Longrightarrow> keyedByAddress (fst (AddSubdomain r d ip tp now))"
  by (auto simp: keyedByAddress_def AddSubdomain_handleAt newProxyHandler_def extend_def
           split: if_splits option.splits)

lemma keyedByAddress_Remove:
  "keyedByAddress r \<Longrightarrow> keyedByAddress (fst (RemoveSubdomain r sub))"
  by (auto simp: keyedByAddress_def RemoveSubdomain_handleAt split: if_splits)

lemma keyedByAddress_find:
  "keyedByAddress r \<Longrightarrow> keyedByAddress (fst (snd (findHandler r names order sub port now)))"
  unfolding keyedByAddress_def
  using findHandler_handleAt [of r names order sub port now] by (metis option.distinct(1))

lemma keyedByAddress_step: "keyedByAddress r \<Longrightarrow> keyedByAddress (step r c)"
proof (cases c)
  case (CallModify action now)
  assume "keyedByAddress r"
  with CallModify show ?thesis
    by (simp add: Modify_def keyedByAddress_Add keyedByAddress_Remove)
next
  case (CallExists names subdomain)
  assume "keyedByAddress r"
  with CallExists show ?thesis by (simp add: Exists_def split: option.splits)
next
  case (CallSubdomains names)
  assume "keyedByAddress r"
  with CallSubdomains show ?thesis by (simp add: Subdomains_def)
qed (simp_all add: keyedByAddress_Add keyedByAddress_Remove keyedByAddress_find
       ServeHTTPWithPort_table)

lemma keyedByAddress_run: "keyedByAddress r \<Longrightarrow> keyedByAddress (run r cs)"
  by (induction cs arbitrary: r) (simp_all add: keyedByAddress_step)

subsection \<open>\<^verbatim>\<open>path.Match\<close> on a literal prefix and a star; \<^verbatim>\<open>ToLower\<close>\<close>

lemma scanIndex_literal:
  "list_all literalByte p \<Longrightarrow> scanIndex False (p @ CHR ''*'' # q) = length p"
  by (induction p) (auto simp: literalByte_def)

lemma scanChunk_star: "scanChunk ''*'' = (True, [], [])"
  by (simp add: scanChunk_def)

lemma scanChunk_literal_star:
  assumes "p \<noteq> []" and "list_all literalByte p"
  shows "scanChunk (p @ ''*'') = (False, p, ''*'')"
proof -
  from assms obtain c cs where p: "p = c # cs" and c: "c \<noteq> CHR ''*''"
    by (cases p) (auto simp: literalByte_def)
  then have "dropWhile (\<lambda>c. c = CHR ''*'') (p @ ''*'') = p @ ''*''" by simp
  moreover from assms(2) have "scanIndex False (p @ ''*'') = length p"
    by (rule scanIndex_literal)
  ultimately show ?thesis using p c by (simp add: scanChunk_def Let_def)
qed

lemma matchChunk_loop_literal:
  "list_all literalByte p \<Longrightarrow>
     matchChunk_loop p s failed =
       (if \<not> failed \<and> take (length p) s = p then Inr (drop (length p) s, True)
        else Inr ([], False))"
proof (induction p arbitrary: s failed)
  case Nil
  show ?case by (simp add: matchChunk_loop.simps)
next
  case (Cons c p)
  then have lit: "literalByte c" and rest: "list_all literalByte p" by simp_all
  have step: "matchChunk_loop (c # p) s failed =
      matchChunk_loop p (if failed \<or> s = [] then s else tl s)
        ((failed \<or> s = []) \<or> c \<noteq> hd s)"
    using lit by (subst matchChunk_loop.simps) (simp add: literalByte_def Let_def)
  show ?case
  proof (cases s)
    case Nil
    with step Cons.IH [OF rest] show ?thesis by simp
  next
    case (Cons x xs)
    with step Cons.IH [OF rest] show ?thesis by auto
  qed
qed

lemma checkRest_star: "checkRest ''*'' = Inr False"
  by (simp add: checkRest.simps [of "''*''"] checkRest.simps [of "[]"] scanChunk_star
        matchChunk_def matchChunk_loop.simps [of "[]"])

lemma Match_star: "Match ''*'' name = Inr (CHR ''/'' \<notin> set name)"
  by (simp add: Match.simps [of "''*''"] scanChunk_star)

lemma Match_literal_star:
  assumes "list_all literalByte p"
  shows "Match (p @ ''*'') name =
           Inr (take (length p) name = p \<and> CHR ''/'' \<notin> set (drop (length p) name))"
proof (cases "p = []")
  case True
  then show ?thesis by (simp add: Match_star)
next
  case False
  from False assms have sc: "scanChunk (p @ ''*'') = (False, p, ''*'')"
    by (rule scanChunk_literal_star)
  from assms have mc: "matchChunk p name =
      (if take (length p) name = p then Inr (drop (length p) name, True) else Inr ([], False))"
    by (simp add: matchChunk_def matchChunk_loop_literal)
  show ?thesis
    by (subst Match.simps) (simp add: False sc mc Match_star checkRest_star)
qed

lemma take_drop_iff:
  "(take (length p) name = p \<and> c \<notin> set (drop (length p) name))
     \<longleftrightarrow> (\<exists>rest. name = p @ rest \<and> c \<notin> set rest)"
proof
  assume a: "take (length p) name = p \<and> c \<notin> set (drop (length p) name)"
  then have "p @ drop (length p) name = take (length p) name @ drop (length p) name"
    by simp
  then have "name = p @ drop (length p) name" by simp
  with a show "\<exists>rest. name = p @ rest \<and> c \<notin> set rest" by blast
next
  assume "\<exists>rest. name = p @ rest \<and> c \<notin> set rest"
  then show "take (length p) name = p \<and> c \<notin> set (drop (length p) name)" by auto
qed

lemma byte_lower_byte:
  "byte (lower_byte c) = (if 65 \<le> byte c \<and> byte c \<le> 90 then byte c + 32 else byte c)"
  by (simp add: lower_byte_def byte_def)

lemma lower_byte_dot: "lower_byte c = CHR ''.'' \<longleftrightarrow> c = CHR ''.''"
proof
  assume "lower_byte c = CHR ''.''"
  then have "byte (lower_byte c) = 46" by (simp add: byte_def)
  then have "byte c = 46" by (simp add: byte_lower_byte split: if_splits)
  then have "of_char c = (of_char (CHR ''.'') :: nat)" by (simp add: byte_def)
  then show "c = CHR ''.''" by (simp only: of_char_eq_iff)
next
  assume "c = CHR ''.''"
  then show "lower_byte c = CHR ''.''" by (simp add: lower_byte_def byte_def)
qed

lemma ToLower_dot: "CHR ''.'' \<in> set (ToLower s) \<longleftrightarrow> CHR ''.'' \<in> set s"
  by (auto simp: ToLower_def image_iff lower_byte_dot eq_commute [of "CHR ''.''"])

lemma lower_byte_idem: "lower_byte (lower_byte c) = lower_byte c"
proof (cases "65 \<le> byte c \<and> byte c \<le> 90")
  case True
  then have "byte (lower_byte c) = byte c + 32" by (simp add: byte_lower_byte)
  with True have "\<not> (65 \<le> byte (lower_byte c) \<and> byte (lower_byte c) \<le> 90)" by simp
  with lower_byte_def [of "lower_byte c"] show ?thesis by simp
next
  case False
  then have "lower_byte c = c" by (auto simp: lower_byte_def)
  then show ?thesis by simp
qed

lemma ToLower_idem: "ToLower (ToLower s) = ToLower s"
  by (simp add: ToLower_def lower_byte_idem)

subsection \<open>The tables, evaluated\<close>

lemmas eval_defs = exampleConfig_def NewReverseProxy_def AddSubdomain_def exists_def add_def
  newProxyHandler_def alive_def extend_def proxyHandlerLifetime_def Second_def
  findHandler_def Handler_def Handler_range.simps Exists_def Subdomains_def
  RemoveSubdomain_def bucketAt_def handleAt_def Let_def

lemma oneBackend_domainMap:
  "domainMap oneBackend =
     [''foo'' \<mapsto> [80 \<mapsto> [''10.0.0.1'' \<mapsto>
         \<lparr>handler = NewSingleHostReverseProxy ''10.0.0.1'' 8080, timer = 30 * Second\<rparr>]]]"
  by (simp add: oneBackend_def eval_defs)

lemma oneBackend_cfg: "cfg oneBackend = exampleConfig"
  by (simp add: oneBackend_def AddSubdomain_cfg NewReverseProxy_def)

lemma twoBackends_domainMap:
  "domainMap twoBackends =
     [''foo'' \<mapsto> [80 \<mapsto>
        [''10.0.0.1'' \<mapsto>
           \<lparr>handler = NewSingleHostReverseProxy ''10.0.0.1'' 8080, timer = 30 * Second\<rparr>,
         ''10.0.0.2'' \<mapsto>
           \<lparr>handler = NewSingleHostReverseProxy ''10.0.0.2'' 8080, timer = 50 * Second\<rparr>]]]"
  by (simp add: twoBackends_def AddSubdomain_def oneBackend_domainMap oneBackend_cfg
        exampleConfig_def exists_def add_def newProxyHandler_def proxyHandlerLifetime_def
        Second_def Let_def)

lemma twoKeys_domainMap:
  "domainMap twoKeys =
     [''f*'' \<mapsto> [80 \<mapsto> [''10.0.0.9'' \<mapsto>
         \<lparr>handler = NewSingleHostReverseProxy ''10.0.0.9'' 8080, timer = 30 * Second\<rparr>]],
      ''foo'' \<mapsto> [80 \<mapsto> [''10.0.0.1'' \<mapsto>
         \<lparr>handler = NewSingleHostReverseProxy ''10.0.0.1'' 8080, timer = 70 * Second\<rparr>]]]"
  by (simp add: twoKeys_def eval_defs)

lemma previewTable_domainMap:
  "domainMap previewTable =
     [''pr-*'' \<mapsto> [80 \<mapsto> [''10.0.0.1'' \<mapsto>
         \<lparr>handler = NewSingleHostReverseProxy ''10.0.0.1'' 8080, timer = 30 * Second\<rparr>]]]"
  by (simp add: previewTable_def eval_defs)

lemma mixedCase_domainMap:
  "domainMap mixedCase =
     [''Foo'' \<mapsto> [80 \<mapsto> [''10.0.0.1'' \<mapsto>
         \<lparr>handler = NewSingleHostReverseProxy ''10.0.0.1'' 8080, timer = 30 * Second\<rparr>]]]"
  by (simp add: mixedCase_def eval_defs)

section \<open>The claims\<close>

subsection \<open>C1: \<^verbatim>\<open>AddSubdomain\<close>, then \<^verbatim>\<open>findHandler\<close>\<close>

text \<open>
  C1, as amended. Let \<open>targetPort\<close> be the target port of an entry \<open>v\<close> of
  \<^verbatim>\<open>cfg.Listen.HTTP\<close>, and let \<^verbatim>\<open>findHandler\<close> for the same subdomain and the listen port
  of \<open>v\<close> run less than \<open>proxyHandlerLifetime\<close> after \<^verbatim>\<open>AddSubdomain\<close>, with a loop over
  the bucket that visits \<open>address\<close>. Then a handler is found, and it is the handler of
  an address that the bucket holds and that is alive; it forwards to that address. It
  forwards to \<open>address\<close> whenever no other address of the bucket was alive at that
  time. With another address alive, \<^verbatim>\<open>Handler\<close> returns whichever the loop meets first
  (the source: "return first (randomized by Go's map)"). The table before the call is
  any table keyed by address, as every reachable table is.
\<close>

theorem add_then_lookup:
  assumes "v \<in> set (HTTP (Listen (cfg r)))" and "TargetPort v = targetPort"
      and "t1 < t0 + proxyHandlerLifetime"
      and "address \<in> set order"
      and "keyedByAddress r"
      and "r1 = fst (AddSubdomain r domain address targetPort t0)"
  shows "\<exists>h e. fst (findHandler r1 names order domain (ListenPort v) t1) = Some h
               \<and> handleAt r1 domain (ListenPort v) (dest_host h) = Some e
               \<and> alive e t1 \<and> h = handler e
               \<and> ((\<forall>a' e'. a' \<noteq> address
                       \<longrightarrow> handleAt r domain (ListenPort v) a' = Some e'
                       \<longrightarrow> \<not> alive e' t1)
                    \<longrightarrow> dest_host h = address)"
proof -
  let ?L = "ListenPort v"
  from assms(1,2) have m: "\<exists>v\<in>set (HTTP (Listen (cfg r))). TargetPort v = targetPort \<and> ListenPort v = ?L"
    by auto
  obtain ph where ph: "domainMap r1 domain = Some ph"
    using assms(6) by (simp add: AddSubdomain_domainMap)
  from m assms(6) obtain b where b: "bucketAt r1 domain ?L = Some b"
    by (simp add: AddSubdomain_bucketAt)
  with ph have phb: "ph ?L = Some b" by (simp add: bucketAt_def)
  from m assms(6) obtain e0 where e0: "handleAt r1 domain ?L address = Some e0"
    and t0: "timer e0 = t0 + proxyHandlerLifetime"
    by (auto simp: AddSubdomain_handleAt newProxyHandler_def extend_def split: option.splits)
  from e0 b have be0: "b address = Some e0" by (simp add: handleAt_def)
  from t0 assms(3) have al: "alive e0 t1" by (simp add: alive_def)
  have "\<exists>a' h'. a' \<in> set order \<and> b a' = Some h' \<and> alive h' t1
                 \<and> fst (Handler ph order ?L t1) = Some (handler h')"
    using phb assms(4) be0 al by (rule Handler_alive_found)
  then obtain a e
    where ae: "a \<in> set order" "b a = Some e" "alive e t1"
      "fst (Handler ph order ?L t1) = Some (handler e)" by blast
  from ae(2) b have hae: "handleAt r1 domain ?L a = Some e" by (simp add: handleAt_def)
  from assms(5,6) have "keyedByAddress r1" by (simp add: keyedByAddress_Add)
  with hae have dh: "dest_host (handler e) = a" by (simp add: keyedByAddress_def)
  have "a = address"
    if other: "\<forall>a' e'. a' \<noteq> address \<longrightarrow> handleAt r domain ?L a' = Some e' \<longrightarrow> \<not> alive e' t1"
  proof (rule ccontr)
    assume ne: "a \<noteq> address"
    with hae assms(6) have "handleAt r domain ?L a = Some e" by (simp add: AddSubdomain_handleAt)
    with other ne ae(3) show False by blast
  qed
  with ae hae dh ph show ?thesis
    by (simp add: findHandler_exact)
qed

text \<open>Two backends of one subdomain: 10.0.0.1 is added at time 0 and 10.0.0.2 twenty
  seconds later; a second after that, a loop that meets 10.0.0.1 first returns the
  handler that forwards to 10.0.0.1, not to the address just added.\<close>

theorem add_then_lookup_counterexample:
  "map_option dest_host
     (fst (findHandler twoBackends [''foo''] [''10.0.0.1'', ''10.0.0.2''] ''foo'' 80
             (21 * Second)))
   = Some ''10.0.0.1''"
  by (simp add: findHandler_def twoBackends_domainMap Handler_def Handler_range.simps
        alive_def Second_def Let_def)

theorem add_then_lookup_witness:
  "\<lparr>ListenPort = 80, TargetPort = 8080\<rparr> \<in> set (HTTP (Listen (cfg (NewReverseProxy exampleConfig))))
   \<and> 29 * Second < 0 + proxyHandlerLifetime
   \<and> keyedByAddress (NewReverseProxy exampleConfig)
   \<and> map_option dest_host (fst (findHandler oneBackend [''foo''] [''10.0.0.1''] ''foo'' 80
                                   (29 * Second)))
       = Some ''10.0.0.1''"
proof -
  have 1: "\<lparr>ListenPort = 80, TargetPort = 8080\<rparr>
             \<in> set (HTTP (Listen (cfg (NewReverseProxy exampleConfig))))"
    by (simp add: NewReverseProxy_def exampleConfig_def)
  have 2: "TargetPort \<lparr>ListenPort = 80, TargetPort = 8080\<rparr> = 8080" by simp
  have 3: "29 * Second < 0 + proxyHandlerLifetime"
    by (simp add: proxyHandlerLifetime_def Second_def)
  have 4: "''10.0.0.1'' \<in> set [''10.0.0.1'']" by simp
  have 5: "keyedByAddress (NewReverseProxy exampleConfig)" by (rule keyedByAddress_New)
  have 6: "oneBackend
             = fst (AddSubdomain (NewReverseProxy exampleConfig) ''foo'' ''10.0.0.1'' 8080 0)"
    by (simp add: oneBackend_def)
  have 7: "\<forall>a' e'. a' \<noteq> ''10.0.0.1''
             \<longrightarrow> handleAt (NewReverseProxy exampleConfig) ''foo'' 80 a' = Some e'
             \<longrightarrow> \<not> alive e' (29 * Second)"
    by (simp add: handleAt_def bucketAt_def NewReverseProxy_def)
  from add_then_lookup [OF 1 2 3 4 5 6, of "[''foo'']"] 7
  have "map_option dest_host (fst (findHandler oneBackend [''foo''] [''10.0.0.1''] ''foo'' 80
                                   (29 * Second))) = Some ''10.0.0.1''"
    by auto
  with 1 3 5 show ?thesis by simp
qed

subsection \<open>C2: expiry\<close>

text \<open>
  C2, as amended. After \<^verbatim>\<open>AddSubdomain\<close> at time 0, let \<^verbatim>\<open>findHandler\<close> for the same
  subdomain and any port run at a time \<open>t\<close> at or past \<open>proxyHandlerLifetime\<close>, and
  let no handler of that bucket be alive at \<open>t\<close> other than, possibly, the one this
  call of \<^verbatim>\<open>AddSubdomain\<close> created or renewed (the one under \<open>address\<close>, in a bucket of
  a listen port that maps to \<open>targetPort\<close>). Then nothing is found, every address the
  loop visits is gone from the bucket afterwards, and every other handler of the
  table is as before. Without the proviso the claim fails: a handler that another
  call added or renewed later is alive and is returned.
\<close>

theorem lookup_after_lifetime:
  assumes "r1 = fst (AddSubdomain r domain address targetPort 0)"
      and "proxyHandlerLifetime \<le> t"
      and "\<forall>a' e'. handleAt r1 domain port a' = Some e' \<longrightarrow>
             \<not> alive e' t \<or>
             (a' = address \<and> (\<exists>v\<in>set (HTTP (Listen (cfg r))).
                                  TargetPort v = targetPort \<and> ListenPort v = port))"
      and "r2 = fst (snd (findHandler r1 names order domain port t))"
  shows "fst (findHandler r1 names order domain port t) = None
         \<and> (a \<in> set order \<longrightarrow> handleAt r2 domain port a = None)
         \<and> (a \<notin> set order \<longrightarrow> handleAt r2 domain port a = handleAt r1 domain port a)
         \<and> ((d, p) \<noteq> (domain, port) \<longrightarrow> handleAt r2 d p a = handleAt r1 d p a)"
proof -
  obtain ph where ph: "domainMap r1 domain = Some ph"
    using assms(1) by (simp add: AddSubdomain_domainMap)
  have dead: "\<not> alive e' t" if h: "handleAt r1 domain port a' = Some e'" for a' e'
  proof (cases "alive e' t")
    case False
    then show ?thesis .
  next
    case True
    with assms(3) h have "a' = address"
      and "\<exists>v\<in>set (HTTP (Listen (cfg r))). TargetPort v = targetPort \<and> ListenPort v = port"
      by blast+
    with h assms(1) have "timer e' = 0 + proxyHandlerLifetime"
      by (auto simp: AddSubdomain_handleAt newProxyHandler_def extend_def
               split: option.splits if_splits)
    with assms(2) show ?thesis by (simp add: alive_def)
  qed
  have frame: "handleAt r2 d' p' a' =
           (if d' = domain \<and> p' = port
            then (case ph port of
                    None \<Rightarrow> None
                  | Some b \<Rightarrow> fst (snd (Handler_range b order t)) a')
            else handleAt r1 d' p' a')" for d' p' a'
    unfolding assms(4) using ph by (rule findHandler_exact_handleAt)
  show ?thesis
  proof (cases "ph port")
    case None
    with ph have "fst (findHandler r1 names order domain port t) = None"
      by (simp add: findHandler_exact Handler_no_bucket)
    moreover from None ph have "handleAt r1 domain port a = None"
      by (simp add: handleAt_def bucketAt_def)
    ultimately show ?thesis using None by (auto simp: frame)
  next
    case (Some b)
    from dead ph Some have "\<forall>a h. a \<in> set order \<longrightarrow> b a = Some h \<longrightarrow> \<not> alive h t"
      by (simp add: handleAt_def bucketAt_def)
    then have d: "fst (Handler_range b order t) = None \<and>
        fst (snd (Handler_range b order t)) = (\<lambda>a. if a \<in> set order then None else b a)"
      by (rule Handler_range_dead)
    with ph Some have "fst (findHandler r1 names order domain port t) = None"
      by (simp add: findHandler_exact Handler_as_range)
    moreover from Some ph have "handleAt r1 domain port a = b a"
      by (simp add: handleAt_def bucketAt_def)
    ultimately show ?thesis using Some d by (auto simp: frame)
  qed
qed

text \<open>The two backends again: (foo, 10.0.0.1, 8080) is added at time 0 and never
  renewed, and at 30 seconds the lookup on port 80 still finds a handler, the one of
  10.0.0.2 added at 20 seconds.\<close>

theorem lookup_after_lifetime_counterexample:
  "fst (findHandler twoBackends [''foo''] [''10.0.0.1'', ''10.0.0.2''] ''foo'' 80 (30 * Second))
   = Some (NewSingleHostReverseProxy ''10.0.0.2'' 8080)"
  by (simp add: findHandler_def twoBackends_domainMap Handler_def Handler_range.simps
        alive_def Second_def Let_def)

theorem lookup_after_lifetime_witness:
  "proxyHandlerLifetime \<le> 30 * Second
   \<and> fst (findHandler oneBackend [''foo''] [''10.0.0.1''] ''foo'' 80 (30 * Second)) = None
   \<and> handleAt (fst (snd (findHandler oneBackend [''foo''] [''10.0.0.1''] ''foo'' 80 (30 * Second))))
        ''foo'' 80 ''10.0.0.1'' = None
   \<and> handleAt oneBackend ''foo'' 80 ''10.0.0.1''
        = Some \<lparr>handler = NewSingleHostReverseProxy ''10.0.0.1'' 8080, timer = 30 * Second\<rparr>"
proof -
  have 1: "oneBackend
             = fst (AddSubdomain (NewReverseProxy exampleConfig) ''foo'' ''10.0.0.1'' 8080 0)"
    by (simp add: oneBackend_def)
  have 2: "proxyHandlerLifetime \<le> 30 * Second"
    by (simp add: proxyHandlerLifetime_def)
  have h: "handleAt oneBackend ''foo'' 80 a
             = (if a = ''10.0.0.1''
                then Some \<lparr>handler = NewSingleHostReverseProxy ''10.0.0.1'' 8080,
                           timer = 30 * Second\<rparr>
                else None)" for a
    by (simp add: handleAt_def bucketAt_def oneBackend_domainMap)
  have 3: "\<forall>a' e'. handleAt oneBackend ''foo'' 80 a' = Some e' \<longrightarrow>
             \<not> alive e' (30 * Second) \<or>
             (a' = ''10.0.0.1'' \<and> (\<exists>v\<in>set (HTTP (Listen (cfg (NewReverseProxy exampleConfig)))).
                                  TargetPort v = 8080 \<and> ListenPort v = 80))"
    by (simp add: h alive_def)
  from lookup_after_lifetime [OF 1 2 3 refl, where a = "''10.0.0.1''" and order = "[''10.0.0.1'']"
                 and names = "[''foo'']"] 2 h
  show ?thesis by simp
qed

subsection \<open>C3: case folding\<close>

text \<open>
  C3, as amended. Only the lookup folds case. \<^verbatim>\<open>ServeHTTPWithPort\<close> lowers the first
  label of the host and queries with that; \<^verbatim>\<open>AddSubdomain\<close> stores the key as it is
  given and touches no other key. So for an ASCII host whose lowered first label is
  \<open>domain\<close> (which is then in lower case itself), a request within the lifetime after
  \<^verbatim>\<open>AddSubdomain\<close> of \<open>domain\<close> is proxied, by the handler and with the table that
  \<^verbatim>\<open>findHandler\<close> gives for the key \<open>domain\<close>: requests in any casing resolve to the
  entry registered in lower case.
\<close>

theorem lookup_folds_case:
  assumes "isASCII host"
      and "Split host (CHR ''.'') = label # labels"
      and "ToLower label = domain"
      and "v \<in> set (HTTP (Listen (cfg r)))" and "TargetPort v = targetPort"
      and "t1 < t0 + proxyHandlerLifetime"
      and "address \<in> set order"
      and "r1 = fst (AddSubdomain r domain address targetPort t0)"
  shows "domainMap r1 domain \<noteq> None
         \<and> (k \<noteq> domain \<longrightarrow> domainMap r1 k = domainMap r k)
         \<and> ToLower domain = domain
         \<and> (\<exists>h. fst (ServeHTTPWithPort r1 names order host (ListenPort v) t1) = Proxied h
                \<and> fst (findHandler r1 names order domain (ListenPort v) t1) = Some h)
         \<and> fst (snd (ServeHTTPWithPort r1 names order host (ListenPort v) t1))
             = fst (snd (findHandler r1 names order domain (ListenPort v) t1))"
proof -
  from assms(8) have keys: "domainMap r1 domain \<noteq> None"
    "k \<noteq> domain \<longrightarrow> domainMap r1 k = domainMap r k"
    by (simp_all add: AddSubdomain_domainMap)
  from assms(3) have low: "ToLower domain = domain"
    by (auto simp: ToLower_idem)
  have "fst (findHandler r1 names order domain (ListenPort v) t1) \<noteq> None"
    unfolding assms(8) using assms(4,5,6,7) by (rule add_then_find_found)
  then obtain h where h: "fst (findHandler r1 names order domain (ListenPort v) t1) = Some h"
    by auto
  have serve:
    "ServeHTTPWithPort r1 names order host (ListenPort v) t1 =
       (case findHandler r1 names order domain (ListenPort v) t1 of
          (Some h, r', logs) \<Rightarrow>
            (Proxied h, r',
             logs @ [(''[debug] proxy handler found for subdomain %s'', [ArgS domain])])
        | (None, r', logs) \<Rightarrow>
            (NotFound, r',
             logs @ [(''[warn] proxy handler not found for subdomain %s'', [ArgS domain])]))"
    using ServeHTTPWithPort_label [OF assms(2), of r1 names order "ListenPort v" t1]
    unfolding assms(3) .
  from h have "fst (ServeHTTPWithPort r1 names order host (ListenPort v) t1) = Proxied h"
    and "fst (snd (ServeHTTPWithPort r1 names order host (ListenPort v) t1))
           = fst (snd (findHandler r1 names order domain (ListenPort v) t1))"
    unfolding serve by (auto split: prod.splits option.splits)
  with keys low h show ?thesis by blast
qed

text \<open>A key registered in mixed case is stored in mixed case, no lowered key is
  stored, and a request for the same host in the same casing is not found.\<close>

theorem add_folds_case_counterexample:
  "domainMap mixedCase ''foo'' = None
   \<and> domainMap mixedCase ''Foo'' \<noteq> None
   \<and> fst (ServeHTTPWithPort mixedCase [''Foo''] [''10.0.0.1''] ''Foo.example.com'' 80 Second)
       = NotFound"
proof -
  have s: "Split ''Foo.example.com'' (CHR ''.'') = [''Foo'', ''example'', ''com'']" by simp
  have l: "ToLower ''Foo'' = ''foo''" by code_simp
  have m: "\<not> matched ''Foo'' ''foo''" by code_simp
  from m show ?thesis
    by (simp add: ServeHTTPWithPort_label [OF s] l findHandler_def mixedCase_domainMap Let_def)
qed

theorem lookup_folds_case_witness:
  "isASCII ''Foo.Example.COM''
   \<and> Split ''Foo.Example.COM'' (CHR ''.'') = [''Foo'', ''Example'', ''COM'']
   \<and> ToLower ''Foo'' = ''foo''
   \<and> fst (ServeHTTPWithPort oneBackend [''foo''] [''10.0.0.1''] ''Foo.Example.COM'' 80 Second)
       = Proxied (NewSingleHostReverseProxy ''10.0.0.1'' 8080)"
proof -
  let ?v = "\<lparr>ListenPort = 80, TargetPort = 8080\<rparr>"
  have 1: "isASCII ''Foo.Example.COM''" by code_simp
  have 2: "Split ''Foo.Example.COM'' (CHR ''.'') = [''Foo'', ''Example'', ''COM'']" by simp
  have 3: "ToLower ''Foo'' = ''foo''" by code_simp
  have 4: "?v \<in> set (HTTP (Listen (cfg (NewReverseProxy exampleConfig))))"
    by (simp add: NewReverseProxy_def exampleConfig_def)
  have 5: "TargetPort ?v = 8080" by simp
  have 6: "Second < 0 + proxyHandlerLifetime"
    by (simp add: proxyHandlerLifetime_def Second_def)
  have 7: "''10.0.0.1'' \<in> set [''10.0.0.1'']" by simp
  have 8: "oneBackend
             = fst (AddSubdomain (NewReverseProxy exampleConfig) ''foo'' ''10.0.0.1'' 8080 0)"
    by (simp add: oneBackend_def)
  have f: "fst (findHandler oneBackend [''foo''] [''10.0.0.1''] ''foo'' 80 Second)
             = Some (NewSingleHostReverseProxy ''10.0.0.1'' 8080)"
    by (simp add: findHandler_def oneBackend_domainMap Handler_def Handler_range.simps
          alive_def Second_def Let_def)
  from lookup_folds_case [OF 1 2 3 4 5 6 7 8, where names = "[''foo'']"] f
  have "fst (ServeHTTPWithPort oneBackend [''foo''] [''10.0.0.1''] ''Foo.Example.COM'' 80 Second)
          = Proxied (NewSingleHostReverseProxy ''10.0.0.1'' 8080)"
    by auto
  with 1 2 3 show ?thesis by simp
qed

subsection \<open>C4: what a wildcard matches\<close>

text \<open>
  C4, as amended. The patterns are matched by \<^verbatim>\<open>path.Match\<close> against the whole queried
  string, and its separator is the slash, not the dot. For a pattern that is a
  literal prefix \<open>p\<close> followed by a star: it matches exactly the strings that begin
  with \<open>p\<close> and have no slash after it, dots or not, so \<^verbatim>\<open>Exists\<close> is true of each of
  them when the pattern is a key. Matching is confined to one label only for
  requests: the string that \<^verbatim>\<open>ServeHTTPWithPort\<close> queries with, the lowered first label
  of the host, has no dot.
\<close>

theorem glob_star_crosses_dots:
  assumes "list_all literalByte p"
  shows "(matched (p @ ''*'') name \<longleftrightarrow> (\<exists>rest. name = p @ rest \<and> CHR ''/'' \<notin> set rest))
         \<and> (set names = dom (domainMap r) \<longrightarrow> domainMap r (p @ ''*'') \<noteq> None
              \<longrightarrow> CHR ''/'' \<notin> set rest \<longrightarrow> fst (Exists r names (p @ rest)))
         \<and> (isASCII host \<longrightarrow> Split host (CHR ''.'') = label # labels
              \<longrightarrow> CHR ''.'' \<notin> set (ToLower label))"
proof -
  have m: "matched (p @ ''*'') x \<longleftrightarrow> (\<exists>rest. x = p @ rest \<and> CHR ''/'' \<notin> set rest)" for x
    using assms by (simp add: matched_def Match_literal_star take_drop_iff)
  have "fst (Exists r names (p @ rest))"
    if "set names = dom (domainMap r)" "domainMap r (p @ ''*'') \<noteq> None" "CHR ''/'' \<notin> set rest"
  proof -
    from that(3) have "matched (p @ ''*'') (p @ rest)" by (auto simp: m)
    moreover from that(1,2) have "p @ ''*'' \<in> set names" by auto
    ultimately have "Exists_range (domainMap r) names (p @ rest)"
      using that(2) by (auto simp: Exists_range_iff)
    then show ?thesis by (simp add: Exists_def split: option.splits)
  qed
  moreover have "CHR ''.'' \<notin> set (ToLower label)" if "Split host (CHR ''.'') = label # labels"
    using Split_first_no_sep [OF that] by (simp add: ToLower_dot)
  ultimately show ?thesis using m by blast
qed

text \<open>With the key \<^verbatim>\<open>pr-*\<close> registered, \<^verbatim>\<open>pr-123.extra\<close> exists and is found.\<close>

theorem glob_single_level_counterexample:
  "fst (Exists previewTable [''pr-*''] ''pr-123.extra'')
   \<and> fst (findHandler previewTable [''pr-*''] [''10.0.0.1''] ''pr-123.extra'' 80 Second)
       = Some (NewSingleHostReverseProxy ''10.0.0.1'' 8080)"
proof -
  have m: "matched ''pr-*'' ''pr-123.extra''" by code_simp
  then show ?thesis
    by (simp add: Exists_def findHandler_def previewTable_domainMap Handler_def
          Handler_range.simps alive_def Second_def Let_def)
qed

theorem glob_star_crosses_dots_witness:
  "list_all literalByte ''pr-''
   \<and> matched ''pr-*'' ''pr-123''
   \<and> matched ''pr-*'' ''pr-123.extra''
   \<and> \<not> matched ''pr-*'' ''pr-1/23''
   \<and> fst (Exists previewTable [''pr-*''] ''pr-123.extra'')
   \<and> isASCII ''PR-123.extra.example.net''
   \<and> Split ''PR-123.extra.example.net'' (CHR ''.'') = [''PR-123'', ''extra'', ''example'', ''net'']
   \<and> CHR ''.'' \<notin> set (ToLower ''PR-123'')"
proof -
  have 1: "list_all literalByte ''pr-''" by (simp add: literalByte_def)
  have 2: "set [''pr-*''] = dom (domainMap previewTable)"
    by (simp add: previewTable_domainMap)
  have 3: "domainMap previewTable (''pr-'' @ ''*'') \<noteq> None"
    by (simp add: previewTable_domainMap)
  have 4: "Split ''PR-123.extra.example.net'' (CHR ''.'')
             = [''PR-123'', ''extra'', ''example'', ''net'']"
    by simp
  note t = glob_star_crosses_dots [OF 1]
  from t [of "''pr-123''", THEN conjunct1] have a: "matched ''pr-*'' ''pr-123''" by simp
  from t [of "''pr-123.extra''", THEN conjunct1]
  have b: "matched ''pr-*'' ''pr-123.extra''" by simp
  from t [of "''pr-1/23''", THEN conjunct1]
  have c: "\<not> matched ''pr-*'' ''pr-1/23''" by simp
  from t [where names = "[''pr-*'']" and r = previewTable and rest = "''123.extra''",
          THEN conjunct2, THEN conjunct1] 2 3
  have d: "fst (Exists previewTable [''pr-*''] ''pr-123.extra'')" by simp
  have 5: "isASCII ''PR-123.extra.example.net''" by code_simp
  from t [where host = "''PR-123.extra.example.net''" and label = "''PR-123''"
            and labels = "[''extra'', ''example'', ''net'']",
          THEN conjunct2, THEN conjunct2] 4 5
  have e: "CHR ''.'' \<notin> set (ToLower ''PR-123'')" by simp
  from 1 a b c d 4 5 e show ?thesis by simp
qed

subsection \<open>C5: an exact key goes first\<close>

text \<open>
  C5. When the queried subdomain is a key of the table, \<^verbatim>\<open>findHandler\<close> does not
  enter the loop over the patterns: its result is the same with an empty loop order,
  the handler is the one \<^verbatim>\<open>Handler\<close> gives for the buckets of that key, no other key's
  entry changes, and \<^verbatim>\<open>Exists\<close> is true without a scan.
\<close>

theorem exact_key_precedence:
  assumes "domainMap r domain = Some ph"
  shows "findHandler r names order domain port now = findHandler r [] order domain port now
         \<and> fst (findHandler r names order domain port now) = fst (Handler ph order port now)
         \<and> (k \<noteq> domain \<longrightarrow>
              domainMap (fst (snd (findHandler r names order domain port now))) k
                = domainMap r k)
         \<and> Exists r names domain = (True, r)"
  using assms by (simp add: findHandler_exact Exists_def)

theorem exact_key_precedence_witness:
  "matched ''f*'' ''foo''
   \<and> fst (findHandler twoKeys [''f*'', ''foo''] [''10.0.0.1''] ''foo'' 80 (41 * Second))
       = Some (NewSingleHostReverseProxy ''10.0.0.1'' 8080)
   \<and> domainMap (fst (snd (findHandler twoKeys [''f*'', ''foo''] [''10.0.0.1''] ''foo'' 80
                             (41 * Second)))) ''f*''
       = domainMap twoKeys ''f*''
   \<and> fst (Exists twoKeys [''f*'', ''foo''] ''foo'')"
proof -
  have m: "matched ''f*'' ''foo''" by code_simp
  have dm: "domainMap twoKeys ''foo'' = Some [80 \<mapsto> [''10.0.0.1'' \<mapsto>
         \<lparr>handler = NewSingleHostReverseProxy ''10.0.0.1'' 8080, timer = 70 * Second\<rparr>]]"
    by (simp add: twoKeys_domainMap)
  have h: "fst (Handler [80 \<mapsto> [''10.0.0.1'' \<mapsto>
         \<lparr>handler = NewSingleHostReverseProxy ''10.0.0.1'' 8080, timer = 70 * Second\<rparr>]]
         [''10.0.0.1''] 80 (41 * Second)) = Some (NewSingleHostReverseProxy ''10.0.0.1'' 8080)"
    by (simp add: Handler_def Handler_range.simps alive_def Second_def)
  note t = exact_key_precedence
    [OF dm, of "[''f*'', ''foo'']" "[''10.0.0.1'']" 80 "41 * Second" "''f*''"]
  from t [THEN conjunct2] m h show ?thesis by simp
qed

subsection \<open>C6: \<^verbatim>\<open>Exists\<close> does not look at handlers\<close>

text \<open>
  C6. With \<open>names\<close> the keys of the table, \<^verbatim>\<open>Exists\<close> answers true exactly when the
  subdomain is a key or some key matches it as a pattern, and returns the table as
  it was. The answer depends on the set of keys only, not on the handlers or the
  time: \<^verbatim>\<open>findHandler\<close>, which deletes dead handlers, leaves the set of keys as it is,
  \<^verbatim>\<open>AddSubdomain\<close> adds its key, and only \<^verbatim>\<open>RemoveSubdomain\<close> takes a key away.
\<close>

theorem exists_ignores_liveness:
  assumes "set names = dom (domainMap r)"
  shows "Exists r names d
           = (d \<in> dom (domainMap r) \<or> (\<exists>name\<in>dom (domainMap r). matched name d), r)
         \<and> dom (domainMap (fst (snd (findHandler r ns order q port now)))) = dom (domainMap r)
         \<and> dom (domainMap (fst (AddSubdomain r q address targetPort now)))
             = insert q (dom (domainMap r))
         \<and> dom (domainMap (fst (RemoveSubdomain r q))) = dom (domainMap r) - {q}
         \<and> (dom (domainMap r') = dom (domainMap r)
              \<longrightarrow> fst (Exists r' names d) = fst (Exists r names d))"
proof -
  have ex: "fst (Exists x names d)
             = (d \<in> dom (domainMap x) \<or> (\<exists>name\<in>dom (domainMap x). matched name d))"
    if "set names = dom (domainMap x)" for x
    using that by (auto simp: Exists_def Exists_range_iff split: option.splits)
  have "snd (Exists r names d) = r"
    by (simp add: Exists_def split: option.splits)
  with ex [OF assms] have "Exists r names d
      = (d \<in> dom (domainMap r) \<or> (\<exists>name\<in>dom (domainMap r). matched name d), r)"
    by (simp add: prod_eq_iff)
  moreover have "dom (domainMap r') = dom (domainMap r)
      \<longrightarrow> fst (Exists r' names d) = fst (Exists r names d)"
    using ex [of r'] ex [OF assms] assms by simp
  moreover have "dom (domainMap (fst (AddSubdomain r q address targetPort now)))
      = insert q (dom (domainMap r))"
    by (simp add: AddSubdomain_domainMap)
  moreover have "dom (domainMap (fst (RemoveSubdomain r q))) = dom (domainMap r) - {q}"
    by (simp add: RemoveSubdomain_def)
  ultimately show ?thesis by (simp add: findHandler_dom)
qed

theorem exists_ignores_liveness_witness:
  "set [''f*'', ''foo''] = dom (domainMap twoKeys)
   \<and> fst (Exists twoKeys [''f*'', ''foo''] ''foo'')
   \<and> fst (Exists twoKeys [''f*'', ''foo''] ''fab'')
   \<and> \<not> fst (Exists twoKeys [''f*'', ''foo''] ''bar'')
   \<and> fst (findHandler twoKeys [''f*'', ''foo''] [''10.0.0.9''] ''fab'' 80 (41 * Second)) = None
   \<and> fst (Exists (fst (snd (findHandler twoKeys [''f*'', ''foo''] [''10.0.0.9''] ''fab'' 80
                               (41 * Second))))
            [''f*'', ''foo''] ''fab'')"
proof -
  let ?names = "[''f*'', ''foo'']"
  let ?r' = "fst (snd (findHandler twoKeys ?names [''10.0.0.9''] ''fab'' 80 (41 * Second)))"
  have 1: "set ?names = dom (domainMap twoKeys)"
    by (auto simp: twoKeys_domainMap)
  have m: "matched ''f*'' ''fab''" "\<not> matched ''foo'' ''fab''"
    "\<not> matched ''f*'' ''bar''" "\<not> matched ''foo'' ''bar''"
    by code_simp+
  note t = exists_ignores_liveness [OF 1]
  from t [of "''foo''", THEN conjunct1] have a: "fst (Exists twoKeys ?names ''foo'')"
    by (simp add: twoKeys_domainMap)
  from t [of "''fab''", THEN conjunct1] m have b: "fst (Exists twoKeys ?names ''fab'')"
    by (simp add: twoKeys_domainMap)
  from t [of "''bar''", THEN conjunct1] m have c: "\<not> fst (Exists twoKeys ?names ''bar'')"
    by (simp add: twoKeys_domainMap)
  from t [where ns = ?names and order = "[''10.0.0.9'']" and q = "''fab''" and port = 80
            and now = "41 * Second", THEN conjunct2, THEN conjunct1]
  have d: "dom (domainMap ?r') = dom (domainMap twoKeys)" .
  from t [where r' = ?r' and d = "''fab''", THEN conjunct2, THEN conjunct2, THEN conjunct2,
          THEN conjunct2] d b
  have e: "fst (Exists ?r' ?names ''fab'')" by simp
  have f: "fst (findHandler twoKeys ?names [''10.0.0.9''] ''fab'' 80 (41 * Second)) = None"
    using m by (simp add: findHandler_def twoKeys_domainMap Handler_def Handler_range.simps
          alive_def Second_def Let_def)
  from 1 a b c e f show ?thesis by simp
qed

subsection \<open>C7: one handler per address, renewed by a repeated \<^verbatim>\<open>AddSubdomain\<close>\<close>

text \<open>
  C7. In every table reached from \<^verbatim>\<open>NewReverseProxy\<close> by calls of the methods, a
  handler stored under an address forwards to that address, so two entries of one
  bucket never forward to the same address. And when a bucket of a listen port that
  maps to the target port holds a handler of the address that is alive, \<^verbatim>\<open>AddSubdomain\<close>
  leaves the same handler there with its timer set to \<open>now + proxyHandlerLifetime\<close>,
  and leaves every other address of the bucket as it was.
\<close>

theorem one_handle_per_address:
  "(handleAt (run (NewReverseProxy c) calls) d p ax = Some ex
      \<longrightarrow> dest_host (handler ex) = ax)
   \<and> (handleAt (run (NewReverseProxy c) calls) d p ax = Some ex
      \<longrightarrow> handleAt (run (NewReverseProxy c) calls) d p ay = Some ey
      \<longrightarrow> dest_host (handler ex) = dest_host (handler ey)
      \<longrightarrow> ax = ay)
   \<and> (v \<in> set (HTTP (Listen (cfg r)))
      \<longrightarrow> handleAt r domain (ListenPort v) address = Some e
      \<longrightarrow> alive e now
      \<longrightarrow> handleAt (fst (AddSubdomain r domain address (TargetPort v) now))
             domain (ListenPort v) address
            = Some (e\<lparr>timer := now + proxyHandlerLifetime\<rparr>)
          \<and> (a \<noteq> address
               \<longrightarrow> handleAt (fst (AddSubdomain r domain address (TargetPort v) now))
                      domain (ListenPort v) a
                     = handleAt r domain (ListenPort v) a))"
proof -
  have k: "keyedByAddress (run (NewReverseProxy c) calls)"
    by (simp add: keyedByAddress_run keyedByAddress_New)
  then have one: "handleAt (run (NewReverseProxy c) calls) d p ax = Some ex
      \<longrightarrow> dest_host (handler ex) = ax"
    by (simp add: keyedByAddress_def)
  from k have "handleAt (run (NewReverseProxy c) calls) d p ax = Some ex
      \<longrightarrow> handleAt (run (NewReverseProxy c) calls) d p ay = Some ey
      \<longrightarrow> dest_host (handler ex) = dest_host (handler ey)
      \<longrightarrow> ax = ay"
    unfolding keyedByAddress_def by metis
  with one show ?thesis
    by (auto simp: AddSubdomain_handleAt extend_def)
qed

theorem one_handle_per_address_witness:
  "handleAt (run (NewReverseProxy exampleConfig)
               [CallAddSubdomain ''foo'' ''10.0.0.1'' 8080 0,
                CallAddSubdomain ''foo'' ''10.0.0.1'' 8080 (20 * Second)])
            ''foo'' 80 ''10.0.0.1''
     = Some \<lparr>handler = NewSingleHostReverseProxy ''10.0.0.1'' 8080, timer = 50 * Second\<rparr>
   \<and> dest_host (handler \<lparr>handler = NewSingleHostReverseProxy ''10.0.0.1'' 8080,
                           timer = 50 * Second\<rparr>) = ''10.0.0.1''
   \<and> handleAt (run (NewReverseProxy exampleConfig)
               [CallAddSubdomain ''foo'' ''10.0.0.1'' 8080 0,
                CallAddSubdomain ''foo'' ''10.0.0.1'' 8080 (20 * Second)])
            ''foo'' 80 ''10.0.0.2'' = None"
proof -
  let ?v = "\<lparr>ListenPort = 80, TargetPort = 8080\<rparr>"
  let ?e = "\<lparr>handler = NewSingleHostReverseProxy ''10.0.0.1'' 8080, timer = 30 * Second\<rparr>"
  let ?calls = "[CallAddSubdomain ''foo'' ''10.0.0.1'' 8080 0,
                 CallAddSubdomain ''foo'' ''10.0.0.1'' 8080 (20 * Second)]"
  have r: "run (NewReverseProxy exampleConfig) ?calls
           = fst (AddSubdomain oneBackend ''foo'' ''10.0.0.1'' (TargetPort ?v) (20 * Second))"
    by (simp add: oneBackend_def)
  have 1: "?v \<in> set (HTTP (Listen (cfg oneBackend)))"
    by (simp add: oneBackend_cfg exampleConfig_def)
  have 2: "handleAt oneBackend ''foo'' (ListenPort ?v) ''10.0.0.1'' = Some ?e"
    by (simp add: handleAt_def bucketAt_def oneBackend_domainMap)
  have 3: "alive ?e (20 * Second)" by (simp add: alive_def Second_def)
  have 4: "handleAt oneBackend ''foo'' (ListenPort ?v) ''10.0.0.2'' = None"
    by (simp add: handleAt_def bucketAt_def oneBackend_domainMap)
  note t = one_handle_per_address
    [where r = oneBackend and v = ?v and domain = "''foo''" and address = "''10.0.0.1''"
       and e = ?e and now = "20 * Second" and a = "''10.0.0.2''"
       and c = exampleConfig and calls = ?calls and d = "''foo''" and p = 80
       and ax = "''10.0.0.1''"
       and ex = "\<lparr>handler = NewSingleHostReverseProxy ''10.0.0.1'' 8080,
                    timer = 50 * Second\<rparr>"]
  from t [THEN conjunct2, THEN conjunct2, rule_format, OF 1 2 3] 4
  have renewed: "handleAt (run (NewReverseProxy exampleConfig) ?calls) ''foo'' 80 ''10.0.0.1''
      = Some \<lparr>handler = NewSingleHostReverseProxy ''10.0.0.1'' 8080, timer = 50 * Second\<rparr>"
    and other: "handleAt (run (NewReverseProxy exampleConfig) ?calls) ''foo'' 80 ''10.0.0.2''
      = None"
    unfolding r by (simp_all add: proxyHandlerLifetime_def)
  from t [THEN conjunct1, rule_format, OF renewed] renewed other
  show ?thesis by simp
qed

subsection \<open>C8: \<^verbatim>\<open>AddSubdomain\<close> with a target port that no listener maps\<close>

text \<open>
  C8, as amended. When \<open>targetPort\<close> is the target port of no entry of
  \<^verbatim>\<open>cfg.Listen.HTTP\<close>, \<^verbatim>\<open>AddSubdomain\<close> logs nothing at all, leaves every bucket of every
  subdomain as it was (so it creates none), and changes no other key of the table. It
  has no result, so no error reaches the caller. The claim's log line "no listen port
  matched" does not exist: the only \<^verbatim>\<open>log.Printf\<close> calls on this path are inside the loop
  body that is skipped.
\<close>

theorem add_unmatched_port_silent:
  assumes "\<forall>v\<in>set (HTTP (Listen (cfg r))). TargetPort v \<noteq> targetPort"
  shows "snd (AddSubdomain r domain address targetPort now) = []
         \<and> (\<forall>d p. bucketAt (fst (AddSubdomain r domain address targetPort now)) d p
                     = bucketAt r d p)
         \<and> (\<forall>d. d \<noteq> domain \<longrightarrow>
                domainMap (fst (AddSubdomain r domain address targetPort now)) d = domainMap r d)"
  using assms
  by (auto simp: AddSubdomain_def Let_def AddSubdomain_range_nomatch bucketAt_def
           split: option.splits)

text \<open>The call of the claim on the new table: port 9999 is mapped by no listener,
  and the log is empty.\<close>

theorem add_unmatched_port_logs_counterexample:
  "9999 \<notin> TargetPort ` set (HTTP (Listen exampleConfig))
   \<and> snd (AddSubdomain (NewReverseProxy exampleConfig) ''foo'' ''10.0.0.1'' 9999 0) = []"
  by (simp add: eval_defs)

theorem add_unmatched_port_silent_witness:
  "snd (AddSubdomain (NewReverseProxy exampleConfig) ''foo'' ''10.0.0.1'' 9999 0) = []
   \<and> bucketAt (fst (AddSubdomain (NewReverseProxy exampleConfig) ''foo'' ''10.0.0.1'' 9999 0))
        ''foo'' 80 = None"
  using add_unmatched_port_silent
    [of "NewReverseProxy exampleConfig" 9999 "''foo''" "''10.0.0.1''" 0]
  by (simp add: exampleConfig_def NewReverseProxy_def bucketAt_def)

subsection \<open>C9: the key is stored all the same\<close>

text \<open>
  C9. \<^verbatim>\<open>AddSubdomain\<close> on a subdomain that is no key yet, with a target port that no
  HTTP listener maps, stores the key with an empty set of buckets: \<^verbatim>\<open>Exists\<close> answers
  true, \<^verbatim>\<open>Subdomains\<close> lists the key (\<open>names\<close> being the order in which the keys of
  the new table are visited), and \<^verbatim>\<open>findHandler\<close> finds nothing on any port, at any
  time, in any order.
\<close>

theorem add_unmatched_port_registers_domain:
  assumes "domainMap r domain = None"
      and "\<forall>v\<in>set (HTTP (Listen (cfg r))). TargetPort v \<noteq> targetPort"
      and "r' = fst (AddSubdomain r domain address targetPort now)"
      and "set names = dom (domainMap r')"
  shows "domainMap r' domain = Some Map.empty
         \<and> fst (Exists r' names domain)
         \<and> domain \<in> set (fst (Subdomains r' names))
         \<and> (\<forall>ns order p t. fst (findHandler r' ns order domain p t) = None)"
proof -
  from assms(1,2,3) have dm: "domainMap r' domain = Some Map.empty"
    by (simp add: AddSubdomain_def Let_def AddSubdomain_range_nomatch)
  then have "fst (Exists r' names domain)"
    by (simp add: Exists_def)
  moreover from dm assms(4) have "domain \<in> set (fst (Subdomains r' names))"
    by (auto simp: Subdomains_def)
  moreover from dm have "\<forall>ns order p t. fst (findHandler r' ns order domain p t) = None"
    by (simp add: findHandler_exact Handler_def)
  ultimately show ?thesis using dm by simp
qed

theorem add_unmatched_port_registers_domain_witness:
  "domainMap (NewReverseProxy exampleConfig) ''foo'' = None
   \<and> fst (Exists (fst (AddSubdomain (NewReverseProxy exampleConfig) ''foo'' ''10.0.0.1'' 9999 0))
            [''foo''] ''foo'')
   \<and> fst (Subdomains (fst (AddSubdomain (NewReverseProxy exampleConfig) ''foo'' ''10.0.0.1'' 9999 0))
            [''foo'']) = [''foo'']
   \<and> fst (findHandler (fst (AddSubdomain (NewReverseProxy exampleConfig) ''foo'' ''10.0.0.1'' 9999 0))
            [''foo''] [] ''foo'' 80 5) = None"
  using add_unmatched_port_registers_domain
    [of "NewReverseProxy exampleConfig" "''foo''" 9999
        "fst (AddSubdomain (NewReverseProxy exampleConfig) ''foo'' ''10.0.0.1'' 9999 0)"
        "''10.0.0.1''" 0 "[''foo'']"]
  by (simp add: eval_defs)

subsection \<open>C10: only HTTP listen ports are touched\<close>

text \<open>
  C10. A bucket that \<^verbatim>\<open>AddSubdomain\<close> changes (creates, renews in, or replaces in)
  belongs to the subdomain of the call and to the listen port of an entry of
  \<^verbatim>\<open>cfg.Listen.HTTP\<close> whose target port is the one of the call. In particular the
  bucket of a listen port that occurs in \<^verbatim>\<open>cfg.Listen.HTTPS\<close> only is left as it was,
  under every subdomain.
\<close>

theorem add_touches_http_listen_ports_only:
  "(bucketAt (fst (AddSubdomain r domain address targetPort now)) d p \<noteq> bucketAt r d p
       \<longrightarrow> d = domain \<and> (\<exists>v\<in>set (HTTP (Listen (cfg r))).
                              ListenPort v = p \<and> TargetPort v = targetPort))
   \<and> (p \<in> ListenPort ` set (HTTPS (Listen (cfg r)))
       \<longrightarrow> p \<notin> ListenPort ` set (HTTP (Listen (cfg r)))
       \<longrightarrow> bucketAt (fst (AddSubdomain r domain address targetPort now)) d p = bucketAt r d p)"
  by (auto simp: AddSubdomain_bucketAt)

theorem add_touches_http_listen_ports_only_witness:
  "443 \<in> ListenPort ` set (HTTPS (Listen (cfg (NewReverseProxy exampleConfig))))
   \<and> 443 \<notin> ListenPort ` set (HTTP (Listen (cfg (NewReverseProxy exampleConfig))))
   \<and> bucketAt (fst (AddSubdomain (NewReverseProxy exampleConfig) ''foo'' ''10.0.0.1'' 8080 0))
        ''foo'' 443 = None
   \<and> bucketAt (fst (AddSubdomain (NewReverseProxy exampleConfig) ''foo'' ''10.0.0.1'' 8080 0))
        ''foo'' 80 \<noteq> None"
  using add_touches_http_listen_ports_only
    [of "NewReverseProxy exampleConfig" "''foo''" "''10.0.0.1''" 8080 0 "''foo''" 443]
  by (simp add: eval_defs)

end
